theory Spec2Isabelle
  imports Main "HOL-Library.AList"
begin

section \<open>Python values and exceptions\<close>

text \<open>
  The legacy datatable view (\<^verbatim>\<open>datatableview/views/legacy.py\<close>) works on dynamically
  typed Python values: column declarations are strings, \<^verbatim>\<open>None\<close>, tuples, lists and
  callables, and rows are model instances whose attributes are read with \<^verbatim>\<open>getattr\<close>.
  The values are modelled by one datatype. An object carries its class kind (what
  \<^verbatim>\<open>isinstance(v, Model)\<close> and \<^verbatim>\<open>isinstance(v, Manager)\<close> answer), whether it is
  callable, and its attribute table; reading an attribute either yields a value or
  raises (a related-object descriptor raises \<^verbatim>\<open>ObjectDoesNotExist\<close>), and an attribute
  that is not in the table raises \<^verbatim>\<open>AttributeError\<close>. \<open>PSelf\<close> stands for the view
  instance where it is passed as a value. A string is a list of characters, an ASCII
  character being the character of its code.
  The model is of Python 3, where \<^verbatim>\<open>six.PY2\<close> is false and \<^verbatim>\<open>six.text_type\<close> is
  \<^verbatim>\<open>str\<close>.
\<close>

datatype exc =
    AttributeError
  | ObjectDoesNotExist
  | NameError
  | ValueError
  | IndexError
  | TypeError
  | UserError string

datatype pyclass = ModelClass | ManagerClass | OtherClass

datatype pyval =
    PNone
  | PBool bool
  | PInt int
  | PStr string
  | PTuple "pyval list"
  | PList "pyval list"
  | PDict "(string \<times> pyval) list"
  | PSelf
  | PObj (obj_name: string) (obj_class: pyclass) (obj_callable: bool)
         (obj_attrs: "(string \<times> (exc + pyval)) list")

text \<open>\<^verbatim>\<open>isinstance(v, (tuple, list))\<close>, and the elements of such a sequence.\<close>

fun is_tuple_or_list :: "pyval \<Rightarrow> bool" where
  "is_tuple_or_list (PTuple xs) = True"
| "is_tuple_or_list (PList xs) = True"
| "is_tuple_or_list v = False"

fun seq_items :: "pyval \<Rightarrow> pyval list" where
  "seq_items (PTuple xs) = xs"
| "seq_items (PList xs) = xs"
| "seq_items v = []"

section \<open>Column definition normalizer\<close>

text \<open>
  \<^verbatim>\<open>FieldDefinitionTuple = namedtuple('FieldDefinitionTuple',
      ['pretty_name', 'fields', 'callback'])\<close>.
  The component \<open>fields'\<close> (the namedtuple's \<^verbatim>\<open>fields\<close>) holds the elements of
  the Python tuple that \<^verbatim>\<open>tuple(name for name in field[1] if name is not None)\<close>
  builds.
\<close>

record FieldDefinitionTuple =
  pretty_name :: pyval
  fields' :: "pyval list"
  callback :: pyval

text \<open>
  Lines 58--70 of \<^verbatim>\<open>get_field_definition\<close>: the declaration is made a list, and a
  three-element list \<^verbatim>\<open>field\<close> is chosen by its length. Any other length raises
  \<^verbatim>\<open>ValueError("Invalid field definition format.")\<close>.
\<close>

definition field_triple :: "pyval \<Rightarrow> exc + (pyval \<times> pyval \<times> pyval)" where
  "field_triple field_definition =
     (let fd = (if \<not> is_tuple_or_list field_definition then [field_definition]
                else seq_items field_definition)
      in if length fd = 1 then Inr (PNone, PList fd, PNone)
         else if length fd = 2 then Inr (fd ! 0, fd ! 1, PNone)
         else if length fd = 3 then Inr (fd ! 0, fd ! 1, fd ! 2)
         else Inl ValueError)"

text \<open>
  Lines 72--76: \<^verbatim>\<open>field[1]\<close> is wrapped in a one-element tuple unless it is a tuple or
  a list, and its \<^verbatim>\<open>None\<close> entries are dropped.
\<close>

definition get_field_definition :: "pyval \<Rightarrow> exc + FieldDefinitionTuple" where
  "get_field_definition field_definition =
     (case field_triple field_definition of
        Inl e \<Rightarrow> Inl e
      | Inr (f0, f1, f2) \<Rightarrow>
          (let f1' = (if \<not> is_tuple_or_list f1 then PTuple [f1] else f1)
           in Inr \<lparr>pretty_name = f0,
                    fields' = filter (\<lambda>name. name \<noteq> PNone) (seq_items f1'),
                    callback = f2\<rparr>))"

section \<open>Strings\<close>

text \<open>
  The regular expression class \<^verbatim>\<open>\w\<close> of Python 3 on a \<^verbatim>\<open>str\<close>: the alphanumeric
  characters of the Unicode database and the underscore. For an ASCII character
  (a code below 128) these are the letters and the digits. Which of the other
  characters are alphanumeric is the answer of the Unicode database, the parameter
  \<open>ua\<close> (the component \<open>unicode_alnum\<close> of the runtime below). The class \<^verbatim>\<open>[\W_]\<close>
  of the name mangling is the complement together with the underscore, that is,
  every character that is not alphanumeric.
\<close>

definition is_word_char :: "(char \<Rightarrow> bool) \<Rightarrow> char \<Rightarrow> bool" where
  "is_word_char ua c =
     (let n = (of_char c :: nat)
      in if n < 128
         then (48 \<le> n \<and> n \<le> 57) \<or> (65 \<le> n \<and> n \<le> 90) \<or> (97 \<le> n \<and> n \<le> 122)
                \<or> c = CHR ''_''
         else ua c)"

definition in_class_W_us :: "(char \<Rightarrow> bool) \<Rightarrow> char \<Rightarrow> bool" where
  "in_class_W_us ua c = (\<not> is_word_char ua c \<or> c = CHR ''_'')"

text \<open>
  \<^verbatim>\<open>re.sub(r'[\W_]+', '_', name)\<close>: scanning from the left, each maximal run of
  characters of the class is replaced by one underscore.
\<close>

function re_sub_W_us :: "(char \<Rightarrow> bool) \<Rightarrow> string \<Rightarrow> string" where
  "re_sub_W_us ua [] = []"
| "re_sub_W_us ua (c # cs) =
     (if in_class_W_us ua c
      then CHR ''_'' # re_sub_W_us ua (dropWhile (in_class_W_us ua) cs)
      else c # re_sub_W_us ua cs)"
  by pat_completeness auto
termination
  by (relation "measure (\<lambda>(ua, cs). length cs)")
    (auto simp: length_dropWhile_le less_Suc_eq_le)

text \<open>
  \<^verbatim>\<open>re.sub(r'<[^>]+>', '', s)\<close>: a match starts at a \<^verbatim>\<open><\<close> that is followed by at
  least one character other than \<^verbatim>\<open>></\<close> and then by a \<^verbatim>\<open>></\<close>; it is removed and
  the scan goes on behind it.
\<close>

function re_sub_tags :: "string \<Rightarrow> string" where
  "re_sub_tags [] = []"
| "re_sub_tags (c # cs) =
     (if c = CHR ''<'' \<and> takeWhile (\<lambda>x. x \<noteq> CHR ''>'') cs \<noteq> []
           \<and> dropWhile (\<lambda>x. x \<noteq> CHR ''>'') cs \<noteq> []
      then re_sub_tags (tl (dropWhile (\<lambda>x. x \<noteq> CHR ''>'') cs))
      else c # re_sub_tags cs)"
  by pat_completeness auto
termination
proof (relation "measure length")
  show "wf (measure length)" by simp
next
  fix c :: char and cs :: string
  have "length (tl (dropWhile (\<lambda>x. x \<noteq> CHR ''>'') cs)) \<le> length cs"
    using length_dropWhile_le [of "\<lambda>x. x \<noteq> CHR ''>''" cs] by simp
  then show "(tl (dropWhile (\<lambda>x. x \<noteq> CHR ''>'') cs), c # cs) \<in> measure length"
    by simp
next
  fix c :: char and cs :: string
  show "(cs, c # cs) \<in> measure length" by simp
qed

text \<open>\<^verbatim>\<open>field_name.split('__')\<close>: the pieces between successive occurrences of the
  separator, found from the left.\<close>

fun split_dunder :: "string \<Rightarrow> string list" where
  "split_dunder [] = [[]]"
| "split_dunder (c # cs) =
     (if c = CHR ''_'' \<and> cs \<noteq> [] \<and> hd cs = CHR ''_'' then [] # split_dunder (tl cs)
      else (case split_dunder cs of
              [] \<Rightarrow> [[c]]
            | w # ws \<Rightarrow> (c # w) # ws))"

text \<open>\<^verbatim>\<open>name.lstrip('-+')\<close>.\<close>

definition lstrip_signs :: "string \<Rightarrow> string" where
  "lstrip_signs name = dropWhile (\<lambda>c. c = CHR ''-'' \<or> c = CHR ''+'') name"

text \<open>\<^verbatim>\<open>sep.join(parts)\<close>.\<close>

fun join :: "string \<Rightarrow> string list \<Rightarrow> string" where
  "join sep [] = []"
| "join sep [x] = x"
| "join sep (x # y # ys) = x @ sep @ join sep (y # ys)"

text \<open>\<^verbatim>\<open>str(i)\<close> and \<^verbatim>\<open>'%d' % i\<close> for a column index: the decimal digits.\<close>

fun str_nat :: "nat \<Rightarrow> string" where
  "str_nat n =
     (if n < 10 then [char_of (48 + n)]
      else str_nat (n div 10) @ [char_of (48 + n mod 10)])"

declare str_nat.simps [simp del]

section \<open>The Python runtime\<close>

text \<open>
  Three things are not in the module and are parameters of the model: what calling a
  callable object returns or raises (\<open>py_call\<close>, with the positional and the keyword
  arguments), the text that \<^verbatim>\<open>str\<close> gives for a container or an object (\<open>py_str\<close>,
  the class's \<^verbatim>\<open>__str__\<close>), and which characters beyond ASCII the Unicode database
  counts as alphanumeric (\<open>unicode_alnum\<close>).
\<close>

record runtime =
  py_call :: "pyval \<Rightarrow> pyval list \<Rightarrow> (string \<times> pyval) list \<Rightarrow> exc + pyval"
  py_str :: "pyval \<Rightarrow> string"
  unicode_alnum :: "char \<Rightarrow> bool"

text \<open>\<^verbatim>\<open>six.text_type(v)\<close>, that is \<^verbatim>\<open>str(v)\<close>.\<close>

definition text_type :: "runtime \<Rightarrow> pyval \<Rightarrow> string" where
  "text_type rt v =
     (case v of
        PStr s \<Rightarrow> s
      | PNone \<Rightarrow> ''None''
      | PBool b \<Rightarrow> (if b then ''True'' else ''False'')
      | PInt i \<Rightarrow> (if i < 0 then CHR ''-'' # str_nat (nat (- i)) else str_nat (nat i))
      | _ \<Rightarrow> py_str rt v)"

text \<open>
  Django's \<^verbatim>\<open>force_text(s, errors="ignore")\<close> with its default \<^verbatim>\<open>strings_only=False\<close>:
  a text instance is returned as it is, and every other value, \<^verbatim>\<open>None\<close> included, is
  converted with \<^verbatim>\<open>six.text_type\<close>.
\<close>

definition force_text :: "runtime \<Rightarrow> pyval \<Rightarrow> string" where
  "force_text rt s = (case s of PStr t \<Rightarrow> t | _ \<Rightarrow> text_type rt s)"

text \<open>
  The truth value that \<^verbatim>\<open>if v:\<close> tests. An object is true (its class is taken to define
  neither \<^verbatim>\<open>__bool__\<close> nor \<^verbatim>\<open>__len__\<close>).
\<close>

fun truthy :: "pyval \<Rightarrow> bool" where
  "truthy PNone = False"
| "truthy (PBool b) = b"
| "truthy (PInt i) = (i \<noteq> 0)"
| "truthy (PStr s) = (s \<noteq> [])"
| "truthy (PTuple xs) = (xs \<noteq> [])"
| "truthy (PList xs) = (xs \<noteq> [])"
| "truthy (PDict kvs) = (kvs \<noteq> [])"
| "truthy PSelf = True"
| "truthy (PObj n k c a) = True"

fun callable :: "pyval \<Rightarrow> bool" where
  "callable (PObj n k c a) = c"
| "callable v = False"

fun isinstance_Model :: "pyval \<Rightarrow> bool" where
  "isinstance_Model (PObj n k c a) = (k = ModelClass)"
| "isinstance_Model v = False"

fun isinstance_Manager :: "pyval \<Rightarrow> bool" where
  "isinstance_Manager (PObj n k c a) = (k = ManagerClass)"
| "isinstance_Manager v = False"

text \<open>
  \<^verbatim>\<open>getattr(obj, bit)\<close> on a row value. The attributes that Python's built-in values
  have themselves (the methods of \<^verbatim>\<open>str\<close>, the double-underscore attributes of
  \<^verbatim>\<open>None\<close>) are not modelled: reading any attribute of a value that is not an object
  raises \<^verbatim>\<open>AttributeError\<close>.
\<close>

fun getattr :: "pyval \<Rightarrow> string \<Rightarrow> exc + pyval" where
  "getattr (PObj n k c a) attr =
     (case map_of a attr of None \<Rightarrow> Inl AttributeError | Some r \<Rightarrow> r)"
| "getattr v attr = Inl AttributeError"

section \<open>Default attribute-chain resolver\<close>

text \<open>
  The names bound in the namespace of \<^verbatim>\<open>legacy.py\<close> once the module is loaded: its
  imports (lines 3--29), its assignments and its \<^verbatim>\<open>def\<close> and \<^verbatim>\<open>class\<close> statements.
  A name that is neither here nor a built-in raises \<^verbatim>\<open>NameError\<close> when it is evaluated.
\<close>

definition module_globals :: "string list" where
  "module_globals =
     [''json'', ''re'', ''logging'', ''namedtuple'', ''reduce'',
      ''Model'', ''Manager'', ''ListView'', ''MultipleObjectMixin'', ''HttpResponse'',
      ''flatatt'', ''render_to_string'', ''settings'', ''force_text'',
      ''python_2_unicode_compatible'', ''six'', ''DatatableMixin'', ''Datatable'',
      ''LegacyDatatable'', ''apply_options'', ''get_datatable_structure'',
      ''DatatableOptions'', ''OPTION_NAME_MAP'', ''DEFAULT_PAGE_LENGTH'',
      ''MINIMUM_PAGE_LENGTH'', ''log'', ''_javascript_boolean'',
      ''FieldDefinitionTuple'', ''ColumnOrderingTuple'', ''ColumnInfoTuple'',
      ''DEFAULT_OPTIONS'', ''get_field_definition'', ''ObjectListResult'',
      ''DatatableStructure'', ''LegacyDatatableMixin'', ''LegacyDatatableView'',
      ''LegacyConfigurationDatatableMixin'', ''LegacyConfigurationDatatableView'']"

definition builtin_exceptions :: "string list" where
  "builtin_exceptions =
     [''AttributeError'', ''NameError'', ''ValueError'', ''IndexError'', ''TypeError'']"

definition lookup_name :: "string \<Rightarrow> exc + string" where
  "lookup_name n =
     (if n \<in> set module_globals \<or> n \<in> set builtin_exceptions then Inr n else Inl NameError)"

fun exc_class :: "exc \<Rightarrow> string" where
  "exc_class AttributeError = ''AttributeError''"
| "exc_class ObjectDoesNotExist = ''ObjectDoesNotExist''"
| "exc_class NameError = ''NameError''"
| "exc_class ValueError = ''ValueError''"
| "exc_class IndexError = ''IndexError''"
| "exc_class TypeError = ''TypeError''"
| "exc_class (UserError n) = n"

text \<open>
  An \<^verbatim>\<open>except (A, B):\<close> clause meeting a raised exception: the tuple of classes is
  evaluated first, name by name, and then the exception is matched against it. The
  result says whether the clause handles the exception; evaluating the tuple can raise.
\<close>

fun lookup_names :: "string list \<Rightarrow> exc + string list" where
  "lookup_names [] = Inr []"
| "lookup_names (n # ns) =
     (case lookup_name n of
        Inl e \<Rightarrow> Inl e
      | Inr c \<Rightarrow> (case lookup_names ns of Inl e \<Rightarrow> Inl e | Inr cs \<Rightarrow> Inr (c # cs)))"

definition except_clause :: "string list \<Rightarrow> exc \<Rightarrow> exc + bool" where
  "except_clause names e =
     (case lookup_names names of
        Inl ne \<Rightarrow> Inl ne
      | Inr classes \<Rightarrow> Inr (exc_class e \<in> set classes))"

text \<open>
  The inner function \<^verbatim>\<open>chain_lookup(obj, bit)\<close> of \<^verbatim>\<open>_get_column_data_default\<close>
  (lines 472--483). \<^verbatim>\<open>hasattr\<close> answers no on \<^verbatim>\<open>AttributeError\<close> and lets any other
  exception through.
\<close>

definition chain_lookup :: "runtime \<Rightarrow> pyval \<Rightarrow> string \<Rightarrow> exc + pyval" where
  "chain_lookup rt obj attr =
     (case getattr obj attr of
        Inl e \<Rightarrow>
          (case except_clause [''AttributeError'', ''ObjectDoesNotExist''] e of
             Inl ne \<Rightarrow> Inl ne
           | Inr handled \<Rightarrow> if handled then Inr PNone else Inl e)
      | Inr val \<Rightarrow>
          if callable val then
            (if isinstance_Manager val then Inr val
             else (case getattr val ''alters_data'' of
                     Inl e \<Rightarrow> if e = AttributeError then py_call rt val [] [] else Inl e
                   | Inr a \<Rightarrow> if a \<noteq> PBool True then py_call rt val [] [] else Inr val))
          else Inr val)"

text \<open>\<^verbatim>\<open>reduce(chain_lookup, [instance] + bits)\<close>: a left fold that starts at the row.\<close>

fun reduce_chain_lookup :: "runtime \<Rightarrow> pyval \<Rightarrow> string list \<Rightarrow> exc + pyval" where
  "reduce_chain_lookup rt obj [] = Inr obj"
| "reduce_chain_lookup rt obj (b # bs) =
     (case chain_lookup rt obj b of
        Inl e \<Rightarrow> Inl e
      | Inr val \<Rightarrow> reduce_chain_lookup rt val bs)"

text \<open>
  Lines 487--490, the value of one source field: the fold over the path, and the text
  of a model instance. \<^verbatim>\<open>field_name.split\<close> on a value that is not a string raises
  \<^verbatim>\<open>AttributeError\<close>.
\<close>

definition field_value :: "runtime \<Rightarrow> pyval \<Rightarrow> pyval \<Rightarrow> exc + pyval" where
  "field_value rt instance field_name =
     (case field_name of
        PStr s \<Rightarrow>
          (case reduce_chain_lookup rt instance (split_dunder s) of
             Inl e \<Rightarrow> Inl e
           | Inr val \<Rightarrow> Inr (if isinstance_Model val then PStr (text_type rt val) else val))
      | _ \<Rightarrow> Inl AttributeError)"

text \<open>The loop of lines 485--493 over \<^verbatim>\<open>column.fields\<close>, appending to \<^verbatim>\<open>values\<close>.\<close>

fun collect_values ::
  "runtime \<Rightarrow> pyval \<Rightarrow> pyval list \<Rightarrow> pyval list \<Rightarrow> exc + pyval list" where
  "collect_values rt instance vals [] = Inr vals"
| "collect_values rt instance vals (field_name # rest) =
     (case field_value rt instance field_name of
        Inl e \<Rightarrow> Inl e
      | Inr val \<Rightarrow>
          collect_values rt instance (if val \<noteq> PNone then vals @ [val] else vals) rest)"

text \<open>\<^verbatim>\<open>_get_column_data_default(self, instance, column)\<close>, lines 469--500.\<close>

definition get_column_data_default ::
  "runtime \<Rightarrow> pyval \<Rightarrow> FieldDefinitionTuple \<Rightarrow> exc + (pyval \<times> pyval)" where
  "get_column_data_default rt instance column =
     (case collect_values rt instance [] (fields' column) of
        Inl e \<Rightarrow> Inl e
      | Inr vals \<Rightarrow>
          (let val = (if length vals = 1 then vals ! 0
                      else PStr (join '' '' (map (text_type rt) vals)))
           in Inr (val, val)))"

section \<open>Structure descriptor\<close>

text \<open>
  The options of a request. Only the entries that the modelled functions read are kept.
  \<open>get_column_index\<close> is the method of \<^verbatim>\<open>DatatableOptions\<close> (module \<^verbatim>\<open>..utils\<close>); it is
  a component of the record, so every statement holds for any such method.
\<close>

record DatatableOptions =
  columns :: "pyval list"
  ordering :: "string list"
  start_offset :: int
  page_length :: int
  get_column_index :: "string \<Rightarrow> int"

text \<open>\<^verbatim>\<open>ColumnOrderingTuple = namedtuple('ColumnOrderingTuple',
  ['order', 'column_index', 'direction'])\<close>.\<close>

record ColumnOrderingTuple =
  order' :: nat
  column_index :: int
  direction :: string

text \<open>
  The loop of \<^verbatim>\<open>DatatableStructure.__init__\<close> (lines 99--105) over
  \<^verbatim>\<open>enumerate(options['ordering'])\<close>; \<open>i\<close> is the position and \<open>ord\<close> the dictionary
  \<^verbatim>\<open>self.ordering\<close> built so far. \<^verbatim>\<open>name[0]\<close> on the empty string raises
  \<^verbatim>\<open>IndexError\<close>.
\<close>

fun ordering_loop ::
  "(string \<Rightarrow> int) \<Rightarrow> nat \<Rightarrow> string list \<Rightarrow> (string \<rightharpoonup> ColumnOrderingTuple)
     \<Rightarrow> exc + (string \<rightharpoonup> ColumnOrderingTuple)" where
  "ordering_loop gci i [] ord = Inr ord"
| "ordering_loop gci i (name # names) ord =
     (let plain_name = lstrip_signs name;
          index = gci plain_name
      in if index = - 1 then ordering_loop gci (Suc i) names ord
         else (case name of
                 [] \<Rightarrow> Inl IndexError
               | c # cs \<Rightarrow>
                   (let sort_direction = (if c = CHR ''-'' then ''desc'' else ''asc'')
                    in ordering_loop gci (Suc i) names
                         (ord(plain_name \<mapsto>
                            \<lparr>order' = i, column_index = index,
                             direction = sort_direction\<rparr>)))))"

record DatatableStructure =
  url :: string
  options :: DatatableOptions
  model :: pyval
  self_ordering :: "string \<rightharpoonup> ColumnOrderingTuple"

text \<open>\<^verbatim>\<open>DatatableStructure.__init__(self, ajax_url, options, model=None)\<close>, lines 92--105.\<close>

definition DatatableStructure_init ::
  "string \<Rightarrow> DatatableOptions \<Rightarrow> pyval \<Rightarrow> exc + DatatableStructure" where
  "DatatableStructure_init ajax_url opts mdl =
     (case (if ordering opts \<noteq> []
            then ordering_loop (get_column_index opts) 0 (ordering opts) Map.empty
            else Inr Map.empty) of
        Inl e \<Rightarrow> Inl e
      | Inr ord \<Rightarrow>
          Inr \<lparr>url = ajax_url, options = opts, model = mdl, self_ordering = ord\<rparr>)"

section \<open>The view: dispatcher, row assembler, slicer and response assembler\<close>

text \<open>
  What the functions of \<^verbatim>\<open>LegacyDatatableMixin\<close> read from \<^verbatim>\<open>self\<close>: the attributes
  that \<^verbatim>\<open>getattr(self, name)\<close> finds (the resolver methods that a view class defines
  among them), the options that \<^verbatim>\<open>_get_datatable_options()\<close> returns for the request,
  the query parameters \<^verbatim>\<open>self.request.GET\<close>, and the hook \<^verbatim>\<open>preload_record_data\<close>,
  which a view class may override.
\<close>

record View =
  view_attrs :: "string \<rightharpoonup> pyval"
  datatable_options :: DatatableOptions
  request_GET :: "string \<rightharpoonup> string"
  preload_record_data :: "pyval \<Rightarrow> exc + pyval"

text \<open>
  A Python slice \<^verbatim>\<open>xs[i:j]\<close> of a list: a negative bound counts from the end, and
  both bounds are clamped to the list.
\<close>

definition py_slice :: "'a list \<Rightarrow> int \<Rightarrow> int \<Rightarrow> 'a list" where
  "py_slice xs i j =
     (let n = int (length xs);
          lo = (if i < 0 then max 0 (i + n) else min i n);
          hi = (if j < 0 then max 0 (j + n) else min j n)
      in take (nat (hi - lo)) (drop (nat lo) xs))"

text \<open>\<^verbatim>\<open>paginate_object_list(self, object_list)\<close>, lines 314--328.\<close>

definition paginate_object_list :: "View \<Rightarrow> 'a list \<Rightarrow> 'a list" where
  "paginate_object_list view object_list =
     (let opts = datatable_options view
      in if page_length opts \<noteq> - 1
         then (let i_begin = start_offset opts;
                   i_end = start_offset opts + page_length opts
               in py_slice object_list i_begin i_end)
         else object_list)"

text \<open>
  The second component of what \<^verbatim>\<open>_get_resolver_method\<close> returns: a callable found on
  the column or on the view, or the bound method \<^verbatim>\<open>self._get_column_data_default\<close>.
\<close>

datatype resolver = Custom pyval | Default

text \<open>\<^verbatim>\<open>getattr(self, callback)\<close> and \<^verbatim>\<open>getattr(self, name, None)\<close> on the view.\<close>

definition view_getattr :: "View \<Rightarrow> pyval \<Rightarrow> exc + pyval" where
  "view_getattr view n =
     (case n of
        PStr s \<Rightarrow> (case view_attrs view s of None \<Rightarrow> Inl AttributeError | Some m \<Rightarrow> Inr m)
      | _ \<Rightarrow> Inl TypeError)"

definition view_getattr_or_None :: "View \<Rightarrow> string \<Rightarrow> pyval" where
  "view_getattr_or_None view s = (case view_attrs view s of None \<Rightarrow> PNone | Some m \<Rightarrow> m)"

text \<open>
  \<^verbatim>\<open>_get_resolver_method(self, i, column)\<close>, lines 423--467. \<^verbatim>\<open>column.fields[0]\<close> on
  an empty tuple raises \<^verbatim>\<open>IndexError\<close>, and \<^verbatim>\<open>re.sub\<close> on a name that is not a string
  raises \<^verbatim>\<open>TypeError\<close>.
\<close>

definition get_resolver_method ::
  "runtime \<Rightarrow> View \<Rightarrow> nat \<Rightarrow> FieldDefinitionTuple \<Rightarrow> exc + (bool \<times> resolver)" where
  "get_resolver_method rt view i column =
     (if truthy (callback column) then
        (if callable (callback column) then Inr (True, Custom (callback column))
         else (case view_getattr view (callback column) of
                 Inl e \<Rightarrow> Inl e
               | Inr m \<Rightarrow> Inr (True, Custom m)))
      else
        (case (let name = PStr (force_text rt (pretty_name column))
               in if \<not> truthy name
                  then (case fields' column of [] \<Rightarrow> Inl IndexError | f0 # fs \<Rightarrow> Inr f0)
                  else Inr name) of
           Inl e \<Rightarrow> Inl e
         | Inr (PStr name) \<Rightarrow>
             (let mangled_name = re_sub_W_us (unicode_alnum rt) name;
                  f = view_getattr_or_None view (''get_column_'' @ mangled_name @ ''_data'')
              in if truthy f then Inr (True, Custom f)
                 else (let f = view_getattr_or_None view
                                 (''get_column_'' @ str_nat i @ ''_data'')
                       in if truthy f then Inr (True, Custom f)
                          else Inr (False, Default)))
         | Inr other \<Rightarrow> Inl TypeError))"

text \<open>\<^verbatim>\<open>_get_preloaded_data(self, instance)\<close>, lines 397--421.\<close>

definition get_preloaded_data ::
  "View \<Rightarrow> pyval \<Rightarrow> exc + (pyval list \<times> (string \<times> pyval) list)" where
  "get_preloaded_data view instance =
     (case preload_record_data view instance of
        Inl e \<Rightarrow> Inl e
      | Inr (PDict kvs) \<Rightarrow> Inr ([], kvs)
      | Inr (PTuple xs) \<Rightarrow> Inr (xs, [])
      | Inr (PList xs) \<Rightarrow> Inr (xs, [])
      | Inr other \<Rightarrow> Inr ([other], []))"

text \<open>
  \<^verbatim>\<open>get_column_data(self, i, name, instance)\<close>, lines 361--385. A custom resolver is
  called with the row, the preloaded positional arguments and the keyword arguments
  \<^verbatim>\<open>default_value\<close>, \<^verbatim>\<open>field_data\<close> and \<^verbatim>\<open>view\<close>; only an \<^verbatim>\<open>AttributeError\<close> of the
  default resolver is caught there. \<^verbatim>\<open>_get_resolver_method\<close> pairs \<open>True\<close> with a
  callable and \<open>False\<close> with the default resolver only, so the last case is never met.
\<close>

definition get_column_data ::
  "runtime \<Rightarrow> View \<Rightarrow> nat \<Rightarrow> pyval \<Rightarrow> pyval \<Rightarrow> exc + pyval" where
  "get_column_data rt view i name instance =
     (case get_field_definition name of
        Inl e \<Rightarrow> Inl e
      | Inr column \<Rightarrow>
          (case get_resolver_method rt view i column of
             Inl e \<Rightarrow> Inl e
           | Inr r \<Rightarrow>
               (case (case r of
                        (True, Custom f) \<Rightarrow>
                          (case get_preloaded_data view instance of
                             Inl e \<Rightarrow> Inl e
                           | Inr (args, kwargs) \<Rightarrow>
                               (case (case get_column_data_default rt instance column of
                                        Inl e \<Rightarrow> if e = AttributeError then Inr PNone else Inl e
                                      | Inr dv \<Rightarrow> Inr (snd dv)) of
                                  Inl e \<Rightarrow> Inl e
                                | Inr default_value \<Rightarrow>
                                    py_call rt f (instance # args)
                                      (AList.update ''view'' PSelf
                                        (AList.update ''field_data'' name
                                          (AList.update ''default_value'' default_value
                                             kwargs)))))
                      | (False, Default) \<Rightarrow>
                          (case get_column_data_default rt instance column of
                             Inl e \<Rightarrow> Inl e
                           | Inr dv \<Rightarrow> Inr (PTuple [fst dv, snd dv]))
                      | _ \<Rightarrow> Inl TypeError) of
                  Inl e \<Rightarrow> Inl e
                | Inr vals \<Rightarrow>
                    if \<not> is_tuple_or_list vals
                    then Inr (PTuple [vals, PStr (re_sub_tags (text_type rt vals))])
                    else Inr vals)))"

text \<open>\<^verbatim>\<open>values[0]\<close> on the tuple or list that \<^verbatim>\<open>get_column_data\<close> returns.\<close>

definition first_item :: "pyval \<Rightarrow> exc + pyval" where
  "first_item v =
     (if is_tuple_or_list v
      then (case seq_items v of [] \<Rightarrow> Inl IndexError | x # xs \<Rightarrow> Inr x)
      else Inl TypeError)"

text \<open>
  The loop of \<^verbatim>\<open>get_record_data\<close> (lines 354--358) over \<^verbatim>\<open>enumerate(options['columns'])\<close>;
  \<open>data\<close> is the dictionary built so far, and \<^verbatim>\<open>data[str(i)] = ...\<close> sets a key.
\<close>

fun record_loop ::
  "runtime \<Rightarrow> View \<Rightarrow> pyval \<Rightarrow> nat \<Rightarrow> pyval list \<Rightarrow> (string \<times> pyval) list
     \<Rightarrow> exc + (string \<times> pyval) list" where
  "record_loop rt view obj i [] data = Inr data"
| "record_loop rt view obj i (name # names) data =
     (case get_column_data rt view i name obj of
        Inl e \<Rightarrow> Inl e
      | Inr vals \<Rightarrow>
          (case first_item vals of
             Inl e \<Rightarrow> Inl e
           | Inr column_data \<Rightarrow>
               record_loop rt view obj (Suc i) names
                 (AList.update (str_nat i) (PStr (text_type rt column_data)) data)))"

text \<open>\<^verbatim>\<open>get_record_data(self, obj)\<close>, lines 339--359.\<close>

definition get_record_data ::
  "runtime \<Rightarrow> View \<Rightarrow> pyval \<Rightarrow> exc + (string \<times> pyval) list" where
  "get_record_data rt view obj =
     (case getattr obj ''pk'' of
        Inl e \<Rightarrow> Inl e
      | Inr pk \<Rightarrow>
          record_loop rt view obj 0 (columns (datatable_options view)) [(''DT_RowId'', pk)])"

text \<open>The list comprehension \<^verbatim>\<open>[self.get_record_data(obj) for obj in object_list_page]\<close>:
  the first exception ends it.\<close>

fun collect_rows :: "('a \<Rightarrow> exc + 'b) \<Rightarrow> 'a list \<Rightarrow> exc + 'b list" where
  "collect_rows f [] = Inr []"
| "collect_rows f (x # xs) =
     (case f x of
        Inl e \<Rightarrow> Inl e
      | Inr y \<Rightarrow> (case collect_rows f xs of Inl e \<Rightarrow> Inl e | Inr ys \<Rightarrow> Inr (y # ys)))"

text \<open>
  \<^verbatim>\<open>get_json_response_object(self, object_list, total, filtered_total)\<close>, lines 294--312.
  \<^verbatim>\<open>self.request.GET.get('sEcho', None)\<close> is the parameter's value, or \<^verbatim>\<open>None\<close>.
\<close>

definition get_json_response_object ::
  "runtime \<Rightarrow> View \<Rightarrow> pyval list \<Rightarrow> pyval \<Rightarrow> pyval \<Rightarrow> exc + pyval" where
  "get_json_response_object rt view object_list total' filtered_total =
     (let object_list_page = paginate_object_list view object_list
      in case collect_rows (get_record_data rt view) object_list_page of
           Inl e \<Rightarrow> Inl e
         | Inr rows \<Rightarrow>
             Inr (PDict
               [(''sEcho'', (case request_GET view ''sEcho'' of
                               None \<Rightarrow> PNone | Some t \<Rightarrow> PStr t)),
                (''iTotalRecords'', total'),
                (''iTotalDisplayRecords'', filtered_total),
                (''aaData'', PList (map PDict rows))]))"

text \<open>
  \<^verbatim>\<open>ObjectListResult\<close>: a list with the two counters that \<^verbatim>\<open>get_object_list\<close> attaches,
  and the payload that \<^verbatim>\<open>get_ajax\<close> (lines 204--207) builds from it.
\<close>

record ObjectListResult =
  items :: "pyval list"
  dtv_total_initial_record_count :: pyval
  dtv_unpaged_total :: pyval

definition get_ajax_response_data :: "runtime \<Rightarrow> View \<Rightarrow> ObjectListResult \<Rightarrow> exc + pyval" where
  "get_ajax_response_data rt view object_list =
     (let total' = dtv_total_initial_record_count object_list;
          filtered_total = dtv_unpaged_total object_list
      in get_json_response_object rt view (items object_list) total' filtered_total)"

section \<open>Properties of the column definition normalizer\<close>

lemma field_triple_nonseq:
  "\<not> is_tuple_or_list raw \<Longrightarrow> field_triple raw = Inr (PNone, PList [raw], PNone)"
  by (simp add: field_triple_def)

lemma field_triple_Inl:
  "field_triple raw = Inl e \<longleftrightarrow>
     e = ValueError \<and> is_tuple_or_list raw \<and> length (seq_items raw) \<notin> {1, 2, 3}"
  by (auto simp: field_triple_def Let_def split: if_splits)

lemma get_field_definition_Inl:
  "get_field_definition raw = Inl e \<longleftrightarrow> field_triple raw = Inl e"
  by (auto simp: get_field_definition_def Let_def split: sum.splits prod.splits)

text \<open>
  Claim C3. A declaration of length one is itself the sequence of source fields and
  leaves the display name and the override \<^verbatim>\<open>None\<close>; a declaration of length two is
  (display name, source fields), one of length three adds the resolver override, and
  any other length raises the configuration error \<^verbatim>\<open>ValueError\<close>. A source-fields
  element that is not a tuple or a list counts as the one-element sequence holding it,
  the \<^verbatim>\<open>None\<close> entries are dropped, and the stored tuple holds the remaining entries in
  their order.
\<close>

theorem get_field_definition_by_length:
  "(is_tuple_or_list raw \<and> seq_items raw = [x] \<longrightarrow>
      get_field_definition raw =
        Inr \<lparr>pretty_name = PNone, fields' = filter (\<lambda>n. n \<noteq> PNone) [x], callback = PNone\<rparr>)
   \<and> (is_tuple_or_list raw \<and> seq_items raw = [d, s] \<longrightarrow>
      get_field_definition raw =
        Inr \<lparr>pretty_name = d,
             fields' = filter (\<lambda>n. n \<noteq> PNone) (if is_tuple_or_list s then seq_items s else [s]),
             callback = PNone\<rparr>)
   \<and> (is_tuple_or_list raw \<and> seq_items raw = [d, s, cb] \<longrightarrow>
      get_field_definition raw =
        Inr \<lparr>pretty_name = d,
             fields' = filter (\<lambda>n. n \<noteq> PNone) (if is_tuple_or_list s then seq_items s else [s]),
             callback = cb\<rparr>)
   \<and> (is_tuple_or_list raw \<and> length (seq_items raw) \<notin> {1, 2, 3} \<longrightarrow>
      get_field_definition raw = Inl ValueError)
   \<and> (get_field_definition raw = Inr r \<longrightarrow> PNone \<notin> set (fields' r))"
proof (intro conjI impI)
  assume "is_tuple_or_list raw \<and> seq_items raw = [x]"
  then show "get_field_definition raw =
        Inr \<lparr>pretty_name = PNone, fields' = filter (\<lambda>n. n \<noteq> PNone) [x], callback = PNone\<rparr>"
    by (simp add: get_field_definition_def field_triple_def)
next
  assume "is_tuple_or_list raw \<and> seq_items raw = [d, s]"
  then show "get_field_definition raw =
        Inr \<lparr>pretty_name = d,
             fields' = filter (\<lambda>n. n \<noteq> PNone) (if is_tuple_or_list s then seq_items s else [s]),
             callback = PNone\<rparr>"
    by (simp add: get_field_definition_def field_triple_def)
next
  assume "is_tuple_or_list raw \<and> seq_items raw = [d, s, cb]"
  then show "get_field_definition raw =
        Inr \<lparr>pretty_name = d,
             fields' = filter (\<lambda>n. n \<noteq> PNone) (if is_tuple_or_list s then seq_items s else [s]),
             callback = cb\<rparr>"
    by (simp add: get_field_definition_def field_triple_def)
next
  assume "is_tuple_or_list raw \<and> length (seq_items raw) \<notin> {1, 2, 3}"
  then show "get_field_definition raw = Inl ValueError"
    by (simp add: get_field_definition_def field_triple_def)
next
  assume "get_field_definition raw = Inr r"
  then show "PNone \<notin> set (fields' r)"
    by (auto simp: get_field_definition_def Let_def split: sum.splits prod.splits)
qed

theorem get_field_definition_by_length_witness:
  "get_field_definition (PTuple [PStr ''Pretty'', PList [PStr ''a'', PNone, PStr ''b''], PStr ''cb'']) =
     Inr \<lparr>pretty_name = PStr ''Pretty'', fields' = [PStr ''a'', PStr ''b''], callback = PStr ''cb''\<rparr>
   \<and> get_field_definition (PTuple [PStr ''Pretty'', PStr ''field'']) =
     Inr \<lparr>pretty_name = PStr ''Pretty'', fields' = [PStr ''field''], callback = PNone\<rparr>
   \<and> get_field_definition (PList [PStr ''name'']) =
     Inr \<lparr>pretty_name = PNone, fields' = [PStr ''name''], callback = PNone\<rparr>
   \<and> get_field_definition (PTuple [PNone, PNone, PNone, PNone]) = Inl ValueError
   \<and> PNone \<notin> set [PStr ''field'']"
  using get_field_definition_by_length
          [of "PTuple [PStr ''Pretty'', PList [PStr ''a'', PNone, PStr ''b''], PStr ''cb'']"
              x "PStr ''Pretty''" "PList [PStr ''a'', PNone, PStr ''b'']" "PStr ''cb''" r]
        get_field_definition_by_length
          [of "PTuple [PStr ''Pretty'', PStr ''field'']" x "PStr ''Pretty''" "PStr ''field''" cb
              "\<lparr>pretty_name = PStr ''Pretty'', fields' = [PStr ''field''], callback = PNone\<rparr>"]
        get_field_definition_by_length [of "PList [PStr ''name'']" "PStr ''name''" d s cb r]
        get_field_definition_by_length [of "PTuple [PNone, PNone, PNone, PNone]" x d s cb r]
  by simp

text \<open>
  Claim C10, as amended. The configuration error is raised exactly for a tuple or a
  list of length zero or of length above three. Every other input is accepted; a value
  that is not a tuple or a list, a string of any length included, is never unpacked and
  becomes the single source field, except \<^verbatim>\<open>None\<close>, which the filter on \<^verbatim>\<open>None\<close>
  entries removes, so that the source fields are empty.
\<close>

theorem get_field_definition_error_exactly:
  "(get_field_definition raw = Inl e \<longleftrightarrow>
      e = ValueError \<and> is_tuple_or_list raw
        \<and> (length (seq_items raw) = 0 \<or> 3 < length (seq_items raw)))
   \<and> (\<not> is_tuple_or_list raw \<longrightarrow>
        get_field_definition raw =
          Inr \<lparr>pretty_name = PNone, fields' = (if raw = PNone then [] else [raw]),
               callback = PNone\<rparr>)"
proof
  have "n \<notin> {1, 2, 3} \<longleftrightarrow> n = 0 \<or> 3 < n" for n :: nat
    by (simp only: insert_iff empty_iff) arith
  then have "length (seq_items raw) \<notin> {1, 2, 3} \<longleftrightarrow>
          length (seq_items raw) = 0 \<or> 3 < length (seq_items raw)" .
  then show "get_field_definition raw = Inl e \<longleftrightarrow>
      e = ValueError \<and> is_tuple_or_list raw
        \<and> (length (seq_items raw) = 0 \<or> 3 < length (seq_items raw))"
    unfolding get_field_definition_Inl field_triple_Inl by blast
next
  show "\<not> is_tuple_or_list raw \<longrightarrow>
        get_field_definition raw =
          Inr \<lparr>pretty_name = PNone, fields' = (if raw = PNone then [] else [raw]),
               callback = PNone\<rparr>"
    by (simp add: get_field_definition_def field_triple_nonseq)
qed

theorem get_field_definition_error_exactly_witness:
  "get_field_definition (PStr ''a_longer_name'') =
     Inr \<lparr>pretty_name = PNone, fields' = [PStr ''a_longer_name''], callback = PNone\<rparr>
   \<and> get_field_definition (PList []) = Inl ValueError"
  using get_field_definition_error_exactly [of "PStr ''a_longer_name''" ValueError]
        get_field_definition_error_exactly [of "PList []" ValueError]
  by simp

text \<open>
  The bare declaration \<^verbatim>\<open>None\<close> is not a tuple or a list and is accepted, but its
  source-field sequence has no element.
\<close>

theorem get_field_definition_None_counterexample:
  "\<not> is_tuple_or_list PNone
   \<and> get_field_definition PNone = Inr \<lparr>pretty_name = PNone, fields' = [], callback = PNone\<rparr>
   \<and> length (fields' \<lparr>pretty_name = PNone, fields' = [], callback = PNone\<rparr>) \<noteq> 1"
  by (simp add: get_field_definition_def field_triple_def)

section \<open>Properties of the pagination slicer\<close>

lemma filter_less_upt: "filter (\<lambda>k. k < n) [a..<b] = [a..<min b n]"
proof (induction b)
  case 0
  then show ?case by simp
next
  case (Suc b)
  show ?case
  proof (cases "b < n")
    case True
    then have "min b n = b" "min (Suc b) n = Suc b" by simp_all
    with Suc True show ?thesis by simp
  next
    case False
    then have "min b n = n" "min (Suc b) n = n" by simp_all
    with Suc False show ?thesis by simp
  qed
qed

lemma take_drop_nth: "take (h - l) (drop l xs) = map (nth xs) [l..<min h (length xs)]"
proof (rule nth_equalityI)
  show "length (take (h - l) (drop l xs)) = length (map ((!) xs) [l..<min h (length xs)])"
    by auto
next
  fix i assume "i < length (take (h - l) (drop l xs))"
  then have 1: "i < h - l" and 2: "l + i < length xs" and 3: "l + i < min h (length xs)"
    by auto
  have "take (h - l) (drop l xs) ! i = xs ! (l + i)"
    using 1 2 by simp
  moreover have "i < min h (length xs) - l"
    using 3 by arith
  then have "i < length [l..<min h (length xs)]"
    by (simp only: length_upt)
  then have "map ((!) xs) [l..<min h (length xs)] ! i = xs ! (l + i)"
    using 3 by (simp only: nth_map nth_upt)
  ultimately show "take (h - l) (drop l xs) ! i = map ((!) xs) [l..<min h (length xs)] ! i"
    by simp
qed

lemma py_slice_nonneg:
  assumes "0 \<le> i" and "0 \<le> j"
  shows "py_slice xs i j = map (nth xs) (filter (\<lambda>k. k < length xs) [nat i..<nat j])"
proof -
  define a b n where "a = nat i" and "b = nat j" and "n = length xs"
  have i: "i = int a" and j: "j = int b"
    using assms by (simp_all add: a_def b_def)
  have "py_slice xs i j = take (min b n - min a n) (drop (min a n) xs)"
    unfolding py_slice_def Let_def i j n_def
    by (simp add: min_def) (auto simp: nat_diff_distrib')
  also have "\<dots> = map (nth xs) [min a n..<min (min b n) (length xs)]"
    by (rule take_drop_nth)
  also have "[min a n..<min (min b n) (length xs)] = [a..<min b n]"
    by (cases "a \<le> n") (simp_all add: n_def min_def)
  finally show ?thesis
    by (simp add: filter_less_upt a_def b_def n_def)
qed

text \<open>
  Claim C6. With a page length of \<open>-1\<close> the collection is returned unsliced. Otherwise,
  for options within their invariant (a start offset that is not negative and an end
  \<open>start_offset + page_length\<close> that is not negative), the result is exactly the elements
  at the positions from \<open>start_offset\<close> up to, and not including,
  \<open>start_offset + page_length\<close> that the collection has, in their order. In particular a
  page length of 25 at offset 50 of a collection of 100 elements gives the elements 50
  to 74.
\<close>

theorem paginate_object_list_positions:
  "(page_length (datatable_options view) = - 1 \<longrightarrow> paginate_object_list view xs = xs)
   \<and> (page_length (datatable_options view) \<noteq> - 1
        \<and> 0 \<le> start_offset (datatable_options view)
        \<and> 0 \<le> start_offset (datatable_options view) + page_length (datatable_options view) \<longrightarrow>
      paginate_object_list view xs =
        map (nth xs)
          (filter (\<lambda>k. k < length xs)
             [nat (start_offset (datatable_options view))
                ..<nat (start_offset (datatable_options view)
                         + page_length (datatable_options view))]))
   \<and> (page_length (datatable_options view) = 25
        \<and> start_offset (datatable_options view) = 50 \<and> length xs = 100 \<longrightarrow>
      paginate_object_list view xs = map (nth xs) [50..<75])"
proof (intro conjI impI)
  assume "page_length (datatable_options view) = - 1"
  then show "paginate_object_list view xs = xs"
    by (simp add: paginate_object_list_def)
next
  assume "page_length (datatable_options view) \<noteq> - 1
        \<and> 0 \<le> start_offset (datatable_options view)
        \<and> 0 \<le> start_offset (datatable_options view) + page_length (datatable_options view)"
  then show "paginate_object_list view xs =
        map (nth xs)
          (filter (\<lambda>k. k < length xs)
             [nat (start_offset (datatable_options view))
                ..<nat (start_offset (datatable_options view)
                         + page_length (datatable_options view))])"
    by (simp add: paginate_object_list_def Let_def py_slice_nonneg)
next
  assume a: "page_length (datatable_options view) = 25
        \<and> start_offset (datatable_options view) = 50 \<and> length xs = 100"
  then have "paginate_object_list view xs = py_slice xs 50 75"
    by (simp add: paginate_object_list_def Let_def)
  also have "\<dots> = map (nth xs) (filter (\<lambda>k. k < length xs) [nat 50..<nat 75])"
    by (rule py_slice_nonneg) simp_all
  also have "\<dots> = map (nth xs) [50..<75]"
    using a by (simp add: filter_less_upt)
  finally show "paginate_object_list view xs = map (nth xs) [50..<75]" .
qed

theorem paginate_object_list_positions_witness:
  "paginate_object_list
     \<lparr>view_attrs = Map.empty,
      datatable_options = \<lparr>columns = [], ordering = [], start_offset = 2, page_length = 3,
                            get_column_index = (\<lambda>n. - 1)\<rparr>,
      request_GET = Map.empty, preload_record_data = (\<lambda>x. Inr (PTuple []))\<rparr>
     [PInt 0, PInt 1, PInt 2, PInt 3, PInt 4, PInt 5, PInt 6] = [PInt 2, PInt 3, PInt 4]
   \<and> paginate_object_list
     \<lparr>view_attrs = Map.empty,
      datatable_options = \<lparr>columns = [], ordering = [], start_offset = 0, page_length = - 1,
                            get_column_index = (\<lambda>n. - 1)\<rparr>,
      request_GET = Map.empty, preload_record_data = (\<lambda>x. Inr (PTuple []))\<rparr>
     [PInt 0, PInt 1, PInt 2] = [PInt 0, PInt 1, PInt 2]
   \<and> paginate_object_list
     \<lparr>view_attrs = Map.empty,
      datatable_options = \<lparr>columns = [], ordering = [], start_offset = 50, page_length = 25,
                            get_column_index = (\<lambda>n. - 1)\<rparr>,
      request_GET = Map.empty, preload_record_data = (\<lambda>x. Inr (PTuple []))\<rparr>
     (map (\<lambda>k. PInt (int k)) [0..<100]) = map (\<lambda>k. PInt (int k)) [50..<75]"
proof -
  have m: "map ((!) (map (\<lambda>k. PInt (int k)) [0..<100])) [50..<75] = map (\<lambda>k. PInt (int k)) [50..<75]"
    by (rule nth_equalityI) simp_all
  have u: "[nat 2..<nat (2 + 3)] = [2, 3, 4]" by (simp add: upt_rec)
  show ?thesis
  using paginate_object_list_positions
     [of "\<lparr>view_attrs = Map.empty,
      datatable_options = \<lparr>columns = [], ordering = [], start_offset = 2, page_length = 3,
                            get_column_index = (\<lambda>n. - 1)\<rparr>,
      request_GET = Map.empty, preload_record_data = (\<lambda>x. Inr (PTuple []))\<rparr>"
      "[PInt 0, PInt 1, PInt 2, PInt 3, PInt 4, PInt 5, PInt 6]"]
   paginate_object_list_positions
     [of "\<lparr>view_attrs = Map.empty,
      datatable_options = \<lparr>columns = [], ordering = [], start_offset = 0, page_length = - 1,
                            get_column_index = (\<lambda>n. - 1)\<rparr>,
      request_GET = Map.empty, preload_record_data = (\<lambda>x. Inr (PTuple []))\<rparr>"
      "[PInt 0, PInt 1, PInt 2]"]
   paginate_object_list_positions
     [of "\<lparr>view_attrs = Map.empty,
      datatable_options = \<lparr>columns = [], ordering = [], start_offset = 50, page_length = 25,
                            get_column_index = (\<lambda>n. - 1)\<rparr>,
      request_GET = Map.empty, preload_record_data = (\<lambda>x. Inr (PTuple []))\<rparr>"
      "map (\<lambda>k. PInt (int k)) [0..<100]"]
   by (simp add: m u)
qed

section \<open>Properties of the default attribute-chain resolver\<close>

lemma collect_values_all2:
  "list_all2 (\<lambda>f v. field_value rt instance f = Inr v) fs vs \<Longrightarrow>
     collect_values rt instance acc fs = Inr (acc @ filter (\<lambda>v. v \<noteq> PNone) vs)"
proof (induction fs arbitrary: acc vs)
  case Nil
  then show ?case by simp
next
  case (Cons f fs)
  from Cons.prems obtain v vs' where vs: "vs = v # vs'"
    and v: "field_value rt instance f = Inr v"
    and rest: "list_all2 (\<lambda>f v. field_value rt instance f = Inr v) fs vs'"
    by (auto simp: list_all2_Cons1)
  show ?case
    using Cons.IH [OF rest] by (simp add: vs v)
qed

lemma except_clause_NameError:
  "except_clause [''AttributeError'', ''ObjectDoesNotExist''] e = Inl NameError"
  by (simp add: except_clause_def lookup_name_def module_globals_def builtin_exceptions_def)

lemma chain_lookup_getattr_raises:
  "getattr obj attr = Inl e \<Longrightarrow> chain_lookup rt obj attr = Inl NameError"
  by (simp add: chain_lookup_def except_clause_NameError)

text \<open>
  Claim C7. When the source fields of the column resolve to the values \<open>vs\<close>, one for
  each field, the resolver returns a pair whose two components are the same value
  \<open>d\<close>: the single value that is not \<^verbatim>\<open>None\<close> if there is exactly one, and the texts
  of the values that are not \<^verbatim>\<open>None\<close> joined with one space if there are several.
  Whenever the resolver returns, the search value is the display value.
\<close>

theorem default_resolver_display_and_search:
  "(list_all2 (\<lambda>f v. field_value rt instance f = Inr v) (fields' column) vs \<longrightarrow>
      (\<exists>d. get_column_data_default rt instance column = Inr (d, d)
         \<and> (\<forall>v. filter (\<lambda>v. v \<noteq> PNone) vs = [v] \<longrightarrow> d = v)
         \<and> (1 < length (filter (\<lambda>v. v \<noteq> PNone) vs) \<longrightarrow>
              d = PStr (join '' '' (map (text_type rt) (filter (\<lambda>v. v \<noteq> PNone) vs))))))
   \<and> (get_column_data_default rt instance column = Inr (display, search) \<longrightarrow>
        search = display)"
proof (intro conjI impI)
  assume "list_all2 (\<lambda>f v. field_value rt instance f = Inr v) (fields' column) vs"
  then have "collect_values rt instance [] (fields' column) = Inr (filter (\<lambda>v. v \<noteq> PNone) vs)"
    using collect_values_all2 [of rt "instance" "fields' column" vs "[]"] by simp
  then show "\<exists>d. get_column_data_default rt instance column = Inr (d, d)
         \<and> (\<forall>v. filter (\<lambda>v. v \<noteq> PNone) vs = [v] \<longrightarrow> d = v)
         \<and> (1 < length (filter (\<lambda>v. v \<noteq> PNone) vs) \<longrightarrow>
              d = PStr (join '' '' (map (text_type rt) (filter (\<lambda>v. v \<noteq> PNone) vs))))"
    by (auto simp: get_column_data_default_def Let_def)
next
  assume "get_column_data_default rt instance column = Inr (display, search)"
  then show "search = display"
    by (auto simp: get_column_data_default_def Let_def split: sum.splits)
qed

theorem default_resolver_display_and_search_witness:
  "get_column_data_default \<lparr>py_call = (\<lambda>f a k. Inr PNone), py_str = (\<lambda>v. ''object''),
       unicode_alnum = (\<lambda>c. False)\<rparr>
      (PObj ''row'' ModelClass False
         [(''pk'', Inr (PInt 7)), (''first'', Inr (PStr ''Ada'')), (''middle'', Inr PNone),
          (''last'', Inr (PStr ''Lovelace''))])
      \<lparr>pretty_name = PStr ''Name'', fields' = [PStr ''first'', PStr ''middle'', PStr ''last''],
       callback = PNone\<rparr>
    = Inr (PStr ''Ada Lovelace'', PStr ''Ada Lovelace'')
   \<and> get_column_data_default \<lparr>py_call = (\<lambda>f a k. Inr PNone), py_str = (\<lambda>v. ''object''),
       unicode_alnum = (\<lambda>c. False)\<rparr>
      (PObj ''row'' ModelClass False
         [(''pk'', Inr (PInt 7)), (''first'', Inr (PStr ''Ada'')), (''middle'', Inr PNone),
          (''last'', Inr (PStr ''Lovelace''))])
      \<lparr>pretty_name = PNone, fields' = [PStr ''middle'', PStr ''pk''], callback = PNone\<rparr>
    = Inr (PInt 7, PInt 7)"
proof -
  let ?rt = "\<lparr>py_call = (\<lambda>f a k. Inr PNone), py_str = (\<lambda>v. ''object''),
       unicode_alnum = (\<lambda>c. False)\<rparr>"
  let ?row = "PObj ''row'' ModelClass False
         [(''pk'', Inr (PInt 7)), (''first'', Inr (PStr ''Ada'')), (''middle'', Inr PNone),
          (''last'', Inr (PStr ''Lovelace''))]"
  have 1: "list_all2 (\<lambda>f v. field_value ?rt ?row f = Inr v)
             [PStr ''first'', PStr ''middle'', PStr ''last'']
             [PStr ''Ada'', PNone, PStr ''Lovelace'']"
    by (simp add: field_value_def chain_lookup_def)
  have 2: "list_all2 (\<lambda>f v. field_value ?rt ?row f = Inr v)
             [PStr ''middle'', PStr ''pk''] [PNone, PInt 7]"
    by (simp add: field_value_def chain_lookup_def)
  show ?thesis
    using default_resolver_display_and_search
            [of ?rt ?row "\<lparr>pretty_name = PStr ''Name'',
                 fields' = [PStr ''first'', PStr ''middle'', PStr ''last''], callback = PNone\<rparr>"
                "[PStr ''Ada'', PNone, PStr ''Lovelace'']"] 1
          default_resolver_display_and_search
            [of ?rt ?row "\<lparr>pretty_name = PNone, fields' = [PStr ''middle'', PStr ''pk''],
                 callback = PNone\<rparr>" "[PNone, PInt 7]"] 2
    by (auto simp: text_type_def)
qed

text \<open>
  Claim C9. If every source field of the column resolves to \<^verbatim>\<open>None\<close>, which includes
  a column without source fields, the resolver returns the pair of two empty strings.
\<close>

theorem default_resolver_all_None:
  assumes "\<forall>f \<in> set (fields' column). field_value rt instance f = Inr PNone"
  shows "get_column_data_default rt instance column = Inr (PStr '''', PStr '''')"
proof -
  have "list_all2 (\<lambda>f v. field_value rt instance f = Inr v) (fields' column)
          (replicate (length (fields' column)) PNone)"
    using assms by (simp add: list_all2_conv_all_nth)
  then have "collect_values rt instance [] (fields' column) =
          Inr ([] @ filter (\<lambda>v. v \<noteq> PNone) (replicate (length (fields' column)) PNone))"
    by (rule collect_values_all2)
  then show ?thesis
    by (simp add: get_column_data_default_def Let_def)
qed

theorem default_resolver_all_None_witness:
  "get_column_data_default \<lparr>py_call = (\<lambda>f a k. Inr PNone), py_str = (\<lambda>v. ''object''),
       unicode_alnum = (\<lambda>c. False)\<rparr>
      (PObj ''row'' ModelClass False [(''pk'', Inr (PInt 7)), (''middle'', Inr PNone)])
      \<lparr>pretty_name = PStr ''Middle'', fields' = [PStr ''middle'', PStr ''middle''],
       callback = PNone\<rparr>
    = Inr (PStr '''', PStr '''')
   \<and> get_column_data_default \<lparr>py_call = (\<lambda>f a k. Inr PNone), py_str = (\<lambda>v. ''object''),
       unicode_alnum = (\<lambda>c. False)\<rparr>
      (PObj ''row'' ModelClass False [(''pk'', Inr (PInt 7)), (''middle'', Inr PNone)])
      \<lparr>pretty_name = PStr ''Virtual'', fields' = [], callback = PNone\<rparr>
    = Inr (PStr '''', PStr '''')"
proof -
  let ?rt = "\<lparr>py_call = (\<lambda>f a k. Inr PNone), py_str = (\<lambda>v. ''object''),
       unicode_alnum = (\<lambda>c. False)\<rparr>"
  let ?row = "PObj ''row'' ModelClass False [(''pk'', Inr (PInt 7)), (''middle'', Inr PNone)]"
  have 1: "\<forall>f \<in> set (fields' \<lparr>pretty_name = PStr ''Middle'',
               fields' = [PStr ''middle'', PStr ''middle''], callback = PNone\<rparr>).
             field_value ?rt ?row f = Inr PNone"
    by (simp add: field_value_def chain_lookup_def)
  have 2: "\<forall>f \<in> set (fields' \<lparr>pretty_name = PStr ''Virtual'', fields' = [],
               callback = PNone\<rparr>). field_value ?rt ?row f = Inr PNone"
    by simp
  show ?thesis
    using default_resolver_all_None [OF 1] default_resolver_all_None [OF 2] by simp
qed

text \<open>
  Claim C1 fails on the code. The handler \<^verbatim>\<open>except (AttributeError, ObjectDoesNotExist)\<close>
  names \<^verbatim>\<open>ObjectDoesNotExist\<close>, which the module never imports, so that every exception
  of \<^verbatim>\<open>getattr\<close> ends in a \<^verbatim>\<open>NameError\<close> that leaves the resolver: for a row without
  the attribute, for the path \<^verbatim>\<open>a__b__c\<close> where \<^verbatim>\<open>a.b\<close> is \<^verbatim>\<open>None\<close>, and for a
  related object that does not exist.
\<close>

theorem default_resolver_missing_attribute_NameError:
  "get_column_data_default rt
      (PObj ''row'' ModelClass False [(''pk'', Inr (PInt 7))])
      \<lparr>pretty_name = PNone, fields' = [PStr ''name''], callback = PNone\<rparr>
    = Inl NameError
   \<and> get_column_data_default rt
      (PObj ''row'' ModelClass False
         [(''pk'', Inr (PInt 7)),
          (''a'', Inr (PObj ''related'' ModelClass False [(''b'', Inr PNone)]))])
      \<lparr>pretty_name = PNone, fields' = [PStr ''a__b__c''], callback = PNone\<rparr>
    = Inl NameError
   \<and> get_column_data_default rt
      (PObj ''row'' ModelClass False
         [(''pk'', Inr (PInt 7)), (''owner'', Inl ObjectDoesNotExist)])
      \<lparr>pretty_name = PNone, fields' = [PStr ''owner''], callback = PNone\<rparr>
    = Inl NameError"
  by (simp add: get_column_data_default_def field_value_def chain_lookup_def
        except_clause_NameError)

section \<open>Properties of the structure descriptor\<close>

lemma ordering_loop_closed_form:
  assumes "[] \<in> set names \<longrightarrow> gci [] = - 1"
  shows "ordering_loop gci i names ord =
     Inr (ord ++ map_of (rev
       [(lstrip_signs name,
          \<lparr>order' = k, column_index = gci (lstrip_signs name),
           direction = (if take 1 name = ''-'' then ''desc'' else ''asc'')\<rparr>).
        (k, name) \<leftarrow> enumerate i names, gci (lstrip_signs name) \<noteq> - 1]))"
  using assms
proof (induction names arbitrary: i ord)
  case Nil
  then show ?case by simp
next
  case (Cons name names)
  define entries where "entries = (\<lambda>j ns.
       [(lstrip_signs name,
          \<lparr>order' = k, column_index = gci (lstrip_signs name),
           direction = (if take 1 name = ''-'' then ''desc'' else ''asc'')\<rparr>).
        (k, name) \<leftarrow> enumerate j ns, gci (lstrip_signs name) \<noteq> - 1])"
  have rest: "[] \<in> set names \<longrightarrow> gci [] = - 1"
    using Cons.prems by simp
  have IH: "ordering_loop gci (Suc i) names ord' = Inr (ord' ++ map_of (rev (entries (Suc i) names)))"
    for ord'
    unfolding entries_def by (rule Cons.IH [OF rest])
  show ?case
  proof (cases "gci (lstrip_signs name) = - 1")
    case True
    then have "entries i (name # names) = entries (Suc i) names"
      by (simp add: entries_def)
    moreover have "ordering_loop gci i (name # names) ord = ordering_loop gci (Suc i) names ord"
      using True by (simp add: Let_def)
    ultimately show ?thesis
      using IH [of ord] by (simp add: entries_def)
  next
    case False
    with Cons.prems have "name \<noteq> []"
      by (auto simp: lstrip_signs_def)
    then obtain c cs where name: "name = c # cs"
      by (cases name) auto
    define e where "e = (lstrip_signs name,
          \<lparr>order' = i, column_index = gci (lstrip_signs name),
           direction = (if c = CHR ''-'' then ''desc'' else ''asc'')\<rparr>)"
    have ent: "entries i (name # names) = e # entries (Suc i) names"
      using False by (simp add: entries_def e_def name)
    have "ordering_loop gci i (name # names) ord =
            ordering_loop gci (Suc i) names (ord(fst e \<mapsto> snd e))"
      using False unfolding name e_def by (simp add: Let_def)
    also have "\<dots> = Inr (ord(fst e \<mapsto> snd e) ++ map_of (rev (entries (Suc i) names)))"
      by (rule IH)
    also have "ord(fst e \<mapsto> snd e) ++ map_of (rev (entries (Suc i) names)) =
               ord ++ map_of (rev (e # entries (Suc i) names))"
      by (cases e) (simp add: map_add_assoc [symmetric])
    finally show ?thesis
      using ent by (simp add: entries_def)
  qed
qed

text \<open>
  Claim C8. Constructing the structure object raises nothing and leaves in
  \<^verbatim>\<open>self.ordering\<close> the entries of the signed names of the ordering option, taken in
  their order: the key is the name without its leading \<^verbatim>\<open>+\<close> and \<^verbatim>\<open>-\<close> characters, a
  name whose plain form has no column index (the lookup answers \<open>-1\<close>) leaves no
  entry, and a resolvable name records its position in the option, its column index,
  and the direction \<^verbatim>\<open>desc\<close> exactly when the name starts with \<^verbatim>\<open>-\<close>, \<^verbatim>\<open>asc\<close>
  otherwise; of two names with the same plain form the later one stays. The names are
  taken to be field names: an empty name is not one that the lookup resolves.
\<close>

theorem structure_ordering_built:
  assumes "[] \<in> set (ordering opts) \<longrightarrow> get_column_index opts [] = - 1"
  shows "DatatableStructure_init ajax_url opts mdl =
     Inr \<lparr>url = ajax_url, options = opts, model = mdl,
          self_ordering = map_of (rev
            [(lstrip_signs name,
               \<lparr>order' = k, column_index = get_column_index opts (lstrip_signs name),
                direction = (if take 1 name = ''-'' then ''desc'' else ''asc'')\<rparr>).
             (k, name) \<leftarrow> enumerate 0 (ordering opts),
             get_column_index opts (lstrip_signs name) \<noteq> - 1])\<rparr>"
proof (cases "ordering opts = []")
  case True
  then show ?thesis by (simp add: DatatableStructure_init_def)
next
  case False
  then show ?thesis
    using assms
      ordering_loop_closed_form [of "ordering opts" "get_column_index opts" 0 Map.empty]
    by (simp add: DatatableStructure_init_def)
qed

theorem structure_ordering_built_witness:
  "\<exists>s. DatatableStructure_init ''/table/''
      \<lparr>columns = [PStr ''id'', PStr ''age'', PStr ''name''],
       ordering = [''-name'', ''missing'', ''+age''],
       start_offset = 0, page_length = 25,
       get_column_index = (\<lambda>n. if n = ''id'' then 0 else if n = ''age'' then 1
                                 else if n = ''name'' then 2 else - 1)\<rparr> PNone = Inr s
     \<and> self_ordering s ''name'' =
         Some \<lparr>order' = 0, column_index = 2, direction = ''desc''\<rparr>
     \<and> self_ordering s ''age'' =
         Some \<lparr>order' = 2, column_index = 1, direction = ''asc''\<rparr>
     \<and> self_ordering s ''missing'' = None"
  using structure_ordering_built
     [of "\<lparr>columns = [PStr ''id'', PStr ''age'', PStr ''name''],
       ordering = [''-name'', ''missing'', ''+age''],
       start_offset = 0, page_length = 25,
       get_column_index = (\<lambda>n. if n = ''id'' then 0 else if n = ''age'' then 1
                                 else if n = ''name'' then 2 else - 1)\<rparr>" "''/table/''" PNone]
  by (simp add: lstrip_signs_def enumerate_eq_zip upt_rec numeral_2_eq_2)

section \<open>Properties of the resolver dispatcher\<close>

lemma re_sub_W_us_word_prefix:
  "\<forall>c \<in> set w. \<not> in_class_W_us ua c \<Longrightarrow>
     re_sub_W_us ua (w @ rest) = w @ re_sub_W_us ua rest"
  by (induction w) simp_all

lemma dropWhile_run:
  "\<forall>c \<in> set r. P c \<Longrightarrow> rest = [] \<or> \<not> P (hd rest) \<Longrightarrow> dropWhile P (r @ rest) = rest"
  by (induction r) (auto simp: dropWhile_eq_self_iff)

lemma re_sub_W_us_run:
  assumes "r \<noteq> []" and "\<forall>c \<in> set r. in_class_W_us ua c"
    and "rest = [] \<or> \<not> in_class_W_us ua (hd rest)"
  shows "re_sub_W_us ua (r @ rest) = CHR ''_'' # re_sub_W_us ua rest"
proof -
  from assms(1) obtain c cs where r: "r = c # cs" by (cases r) auto
  with assms(2) have c: "in_class_W_us ua c" and cs: "\<forall>c \<in> set cs. in_class_W_us ua c"
    by simp_all
  have "dropWhile (in_class_W_us ua) (cs @ rest) = rest"
    using cs assms(3) by (rule dropWhile_run)
  moreover have "re_sub_W_us ua ((c # cs) @ rest) =
      CHR ''_'' # re_sub_W_us ua (dropWhile (in_class_W_us ua) (cs @ rest))"
    using c by simp
  ultimately show ?thesis
    by (simp only: r)
qed

lemma mangle_example:
  "re_sub_W_us ua ''Region: Subdivision Type'' = ''Region_Subdivision_Type''"
  by code_simp

lemma get_resolver_method_custom_iff:
  "get_resolver_method rt view i column = Inr (is_custom, f) \<Longrightarrow>
     (is_custom \<and> (\<exists>m. f = Custom m)) \<or> (\<not> is_custom \<and> f = Default)"
  by (auto simp: get_resolver_method_def Let_def
           split: if_splits sum.splits pyval.splits list.splits)

lemma get_resolver_method_override:
  "truthy (callback column) \<Longrightarrow> callable (callback column) \<Longrightarrow>
     get_resolver_method rt view i column = Inr (True, Custom (callback column))"
  by (simp add: get_resolver_method_def)

lemma get_resolver_method_override_name:
  "truthy (callback column) \<Longrightarrow> \<not> callable (callback column) \<Longrightarrow>
     get_resolver_method rt view i column =
       (case view_getattr view (callback column) of
          Inl e \<Rightarrow> Inl e | Inr m \<Rightarrow> Inr (True, Custom m))"
  by (simp add: get_resolver_method_def)

text \<open>
  What the dispatcher does below the override: the fallback to the first source field
  is taken for a display name that is the empty string, the method named by the column
  index is used when the method named by the lookup name is missing, and the default
  resolver is chosen when both are missing.
\<close>

lemma get_resolver_method_empty_display_name:
  assumes "\<not> truthy (callback column)" and "pretty_name column = PStr []"
    and "fields' column = PStr s # fs"
    and "view_attrs view (''get_column_'' @ re_sub_W_us (unicode_alnum rt) s @ ''_data'')
           = Some m"
    and "truthy m"
  shows "get_resolver_method rt view i column = Inr (True, Custom m)"
proof -
  have "view_getattr_or_None view
          (''get_column_'' @ re_sub_W_us (unicode_alnum rt) s @ ''_data'') = m"
    using assms(4) by (simp add: view_getattr_or_None_def)
  then show ?thesis
    using assms(1,2,3,5) by (simp add: get_resolver_method_def force_text_def Let_def)
qed

lemma get_resolver_method_index:
  assumes "\<not> truthy (callback column)" and "pretty_name column = PStr name" and "name \<noteq> []"
    and "view_attrs view (''get_column_'' @ re_sub_W_us (unicode_alnum rt) name @ ''_data'')
           = None"
    and "view_attrs view (''get_column_'' @ str_nat i @ ''_data'') = Some m"
    and "truthy m"
  shows "get_resolver_method rt view i column = Inr (True, Custom m)"
proof -
  have "view_getattr_or_None view
          (''get_column_'' @ re_sub_W_us (unicode_alnum rt) name @ ''_data'') = PNone"
    and "view_getattr_or_None view (''get_column_'' @ str_nat i @ ''_data'') = m"
    using assms(4,5) by (simp_all add: view_getattr_or_None_def)
  then show ?thesis
    using assms(1,2,3,6) by (simp add: get_resolver_method_def force_text_def Let_def)
qed

lemma get_resolver_method_default:
  assumes "\<not> truthy (callback column)" and "pretty_name column = PStr name" and "name \<noteq> []"
    and "view_attrs view (''get_column_'' @ re_sub_W_us (unicode_alnum rt) name @ ''_data'')
           = None"
    and "view_attrs view (''get_column_'' @ str_nat i @ ''_data'') = None"
  shows "get_resolver_method rt view i column = Inr (False, Default)"
proof -
  have "view_getattr_or_None view
          (''get_column_'' @ re_sub_W_us (unicode_alnum rt) name @ ''_data'') = PNone"
    and "view_getattr_or_None view (''get_column_'' @ str_nat i @ ''_data'') = PNone"
    using assms(4,5) by (simp_all add: view_getattr_or_None_def)
  then show ?thesis
    using assms(1,2,3) by (simp add: get_resolver_method_def force_text_def Let_def)
qed

lemma force_text_None: "force_text rt PNone = ''None''"
  by (simp add: force_text_def text_type_def)

text \<open>
  Claim C4. The mangling leaves a stretch of alphanumeric characters as it is and
  replaces a whole run of other characters (the underscore is one of them) that is
  followed by an alphanumeric character or the end of the name with one underscore;
  the class of replaced characters is exactly the characters that are not
  alphanumeric: neither an ASCII letter or digit nor a character beyond ASCII that the
  Unicode database counts as alphanumeric. A display name \<open>name\<close> of a column without
  override is looked up on the view as \<^verbatim>\<open>get_column_<mangled name>_data\<close>, and the
  display name \<^verbatim>\<open>Region: Subdivision Type\<close> as
  \<^verbatim>\<open>get_column_Region_Subdivision_Type_data\<close>.
\<close>

theorem name_mangling_runs:
  "((\<forall>c \<in> set w. \<not> in_class_W_us (unicode_alnum rt) c) \<and> r \<noteq> []
      \<and> (\<forall>c \<in> set r. in_class_W_us (unicode_alnum rt) c)
      \<and> (rest = [] \<or> \<not> in_class_W_us (unicode_alnum rt) (hd rest)) \<longrightarrow>
        re_sub_W_us (unicode_alnum rt) (w @ r @ rest) =
          w @ ''_'' @ re_sub_W_us (unicode_alnum rt) rest)
   \<and> ((\<forall>c \<in> set w. \<not> in_class_W_us (unicode_alnum rt) c) \<longrightarrow>
        re_sub_W_us (unicode_alnum rt) w = w)
   \<and> (in_class_W_us (unicode_alnum rt) c \<longleftrightarrow>
        \<not> (of_char c \<in> {48..57::nat} \<or> of_char c \<in> {65..90::nat}
           \<or> of_char c \<in> {97..122::nat}
           \<or> (128 \<le> (of_char c :: nat) \<and> unicode_alnum rt c)))
   \<and> (\<not> truthy (callback column) \<and> pretty_name column = PStr name \<and> name \<noteq> []
        \<and> view_attrs view (''get_column_'' @ re_sub_W_us (unicode_alnum rt) name @ ''_data'')
            = Some m
        \<and> truthy m \<longrightarrow>
        get_resolver_method rt view i column = Inr (True, Custom m))
   \<and> (\<not> truthy (callback column) \<and> pretty_name column = PStr ''Region: Subdivision Type''
        \<and> view_attrs view ''get_column_Region_Subdivision_Type_data'' = Some m
        \<and> truthy m \<longrightarrow>
        get_resolver_method rt view i column = Inr (True, Custom m))"
proof (intro conjI impI)
  assume a: "(\<forall>c \<in> set w. \<not> in_class_W_us (unicode_alnum rt) c) \<and> r \<noteq> []
      \<and> (\<forall>c \<in> set r. in_class_W_us (unicode_alnum rt) c)
      \<and> (rest = [] \<or> \<not> in_class_W_us (unicode_alnum rt) (hd rest))"
  then have "re_sub_W_us (unicode_alnum rt) (w @ r @ rest) =
      w @ re_sub_W_us (unicode_alnum rt) (r @ rest)"
    by (simp add: re_sub_W_us_word_prefix)
  also have "re_sub_W_us (unicode_alnum rt) (r @ rest) =
      CHR ''_'' # re_sub_W_us (unicode_alnum rt) rest"
    using a by (intro re_sub_W_us_run) simp_all
  finally show "re_sub_W_us (unicode_alnum rt) (w @ r @ rest) =
      w @ ''_'' @ re_sub_W_us (unicode_alnum rt) rest"
    by simp
next
  assume "\<forall>c \<in> set w. \<not> in_class_W_us (unicode_alnum rt) c"
  then show "re_sub_W_us (unicode_alnum rt) w = w"
    using re_sub_W_us_word_prefix [of w "unicode_alnum rt" "[]"] by simp
next
  show "in_class_W_us (unicode_alnum rt) c \<longleftrightarrow>
        \<not> (of_char c \<in> {48..57::nat} \<or> of_char c \<in> {65..90::nat}
           \<or> of_char c \<in> {97..122::nat}
           \<or> (128 \<le> (of_char c :: nat) \<and> unicode_alnum rt c))"
    by (auto simp: in_class_W_us_def is_word_char_def Let_def)
next
  assume a: "\<not> truthy (callback column) \<and> pretty_name column = PStr name \<and> name \<noteq> []
        \<and> view_attrs view (''get_column_'' @ re_sub_W_us (unicode_alnum rt) name @ ''_data'')
            = Some m
        \<and> truthy m"
  then have "view_getattr_or_None view
      (''get_column_'' @ re_sub_W_us (unicode_alnum rt) name @ ''_data'') = m"
    by (simp add: view_getattr_or_None_def)
  with a show "get_resolver_method rt view i column = Inr (True, Custom m)"
    by (simp add: get_resolver_method_def force_text_def Let_def)
next
  assume a: "\<not> truthy (callback column) \<and> pretty_name column = PStr ''Region: Subdivision Type''
        \<and> view_attrs view ''get_column_Region_Subdivision_Type_data'' = Some m
        \<and> truthy m"
  have n: "''get_column_'' @ re_sub_W_us (unicode_alnum rt) ''Region: Subdivision Type''
             @ ''_data'' = ''get_column_Region_Subdivision_Type_data''"
    unfolding mangle_example by simp
  from a have "view_getattr_or_None view ''get_column_Region_Subdivision_Type_data'' = m"
    by (simp add: view_getattr_or_None_def)
  with a n show "get_resolver_method rt view i column = Inr (True, Custom m)"
    by (simp add: get_resolver_method_def force_text_def Let_def del: re_sub_W_us.simps)
qed

text \<open>
  The witness takes a runtime whose Unicode database counts the character 233 (the
  letter e with an acute accent) as alphanumeric and the character 215 (the
  multiplication sign) as not: the accented letter is kept by the mangling and the
  sign is replaced.
\<close>

theorem name_mangling_runs_witness:
  "re_sub_W_us (\<lambda>c. of_char c = (233 :: nat)) ([CHR ''C'', CHR ''a'', CHR ''f'', CHR 0xE9]
       @ [CHR 0xD7, CHR '':'', CHR '' ''] @ ''Subdivision'')
     = [CHR ''C'', CHR ''a'', CHR ''f'', CHR 0xE9] @ ''_''
       @ re_sub_W_us (\<lambda>c. of_char c = (233 :: nat)) ''Subdivision''
   \<and> re_sub_W_us (\<lambda>c. of_char c = (233 :: nat)) ''Subdivision'' = ''Subdivision''
   \<and> in_class_W_us (\<lambda>c. of_char c = (233 :: nat)) CHR '':''
   \<and> in_class_W_us (\<lambda>c. of_char c = (233 :: nat)) CHR ''_''
   \<and> in_class_W_us (\<lambda>c. of_char c = (233 :: nat)) (CHR 0xD7)
   \<and> \<not> in_class_W_us (\<lambda>c. of_char c = (233 :: nat)) CHR ''R''
   \<and> \<not> in_class_W_us (\<lambda>c. of_char c = (233 :: nat)) (CHR 0xE9)
   \<and> get_resolver_method
        \<lparr>py_call = (\<lambda>f a k. Inr PNone), py_str = (\<lambda>v. ''object''),
         unicode_alnum = (\<lambda>c. of_char c = (233 :: nat))\<rparr>
        \<lparr>view_attrs = [''get_column_Region_Subdivision_Type_data'' \<mapsto>
                         PObj ''get_column_Region_Subdivision_Type_data'' OtherClass True []],
         datatable_options = \<lparr>columns = [], ordering = [], start_offset = 0, page_length = 25,
                               get_column_index = (\<lambda>n. - 1)\<rparr>,
         request_GET = Map.empty, preload_record_data = (\<lambda>x. Inr (PTuple []))\<rparr>
        3
        \<lparr>pretty_name = PStr ''Region: Subdivision Type'', fields' = [PStr ''region__kind''],
         callback = PNone\<rparr>
      = Inr (True, Custom (PObj ''get_column_Region_Subdivision_Type_data'' OtherClass True []))"
proof -
  let ?ua = "\<lambda>c. of_char c = (233 :: nat)"
  let ?rt = "\<lparr>py_call = (\<lambda>f a k. Inr PNone), py_str = (\<lambda>v. ''object''),
              unicode_alnum = ?ua\<rparr>"
  have codes: "of_char (CHR 0xE9) = (233 :: nat)" "of_char (CHR 0xD7) = (215 :: nat)"
    "of_char CHR '':'' = (58 :: nat)" "of_char CHR ''_'' = (95 :: nat)"
    "of_char CHR ''R'' = (82 :: nat)"
    by simp_all
  have w: "\<forall>c \<in> set [CHR ''C'', CHR ''a'', CHR ''f'', CHR 0xE9]. \<not> in_class_W_us ?ua c"
    and r: "\<forall>c \<in> set [CHR 0xD7, CHR '':'', CHR '' '']. in_class_W_us ?ua c"
    and s: "\<forall>c \<in> set ''Subdivision''. \<not> in_class_W_us ?ua c"
    by (simp_all add: in_class_W_us_def is_word_char_def)
  have h: "\<not> in_class_W_us ?ua (hd ''Subdivision'')"
    by (simp add: in_class_W_us_def is_word_char_def)
  show ?thesis
    using name_mangling_runs [of "[CHR ''C'', CHR ''a'', CHR ''f'', CHR 0xE9]" ?rt
            "[CHR 0xD7, CHR '':'', CHR '' '']" "''Subdivision''" "CHR '':''"
            "\<lparr>pretty_name = PStr ''Region: Subdivision Type'', fields' = [PStr ''region__kind''],
              callback = PNone\<rparr>" "''x''"
            "\<lparr>view_attrs = [''get_column_Region_Subdivision_Type_data'' \<mapsto>
                         PObj ''get_column_Region_Subdivision_Type_data'' OtherClass True []],
              datatable_options = \<lparr>columns = [], ordering = [], start_offset = 0,
                 page_length = 25, get_column_index = (\<lambda>n. - 1)\<rparr>,
              request_GET = Map.empty, preload_record_data = (\<lambda>x. Inr (PTuple []))\<rparr>"
            "PObj ''get_column_Region_Subdivision_Type_data'' OtherClass True []" 3]
          name_mangling_runs [of "''Subdivision''" ?rt r rest "CHR ''_''"]
          name_mangling_runs [of w ?rt r rest "CHR 0xD7"]
          name_mangling_runs [of w ?rt r rest "CHR ''R''"]
          name_mangling_runs [of w ?rt r rest "CHR 0xE9"]
          w r s h codes
    by (simp del: re_sub_W_us.simps)
qed

text \<open>
  Claim C2 fails on the code for a column without display name. The lookup name is
  \<^verbatim>\<open>force_text(column.pretty_name)\<close>, and the text of \<^verbatim>\<open>None\<close> is the non-empty
  string \<^verbatim>\<open>None\<close>, so the test \<^verbatim>\<open>if not name\<close> never falls back to the first source
  field: for the bare column \<^verbatim>\<open>street_name\<close> a view method
  \<^verbatim>\<open>get_column_street_name_data\<close> is not found and the default resolver is chosen,
  while a method \<^verbatim>\<open>get_column_None_data\<close> would be.
\<close>

theorem resolver_bare_field_name_lookup:
  "get_field_definition (PStr ''street_name'') =
      Inr \<lparr>pretty_name = PNone, fields' = [PStr ''street_name''], callback = PNone\<rparr>
   \<and> get_resolver_method rt
        \<lparr>view_attrs = [''get_column_street_name_data'' \<mapsto>
                         PObj ''get_column_street_name_data'' OtherClass True []],
         datatable_options = \<lparr>columns = [PStr ''street_name''], ordering = [],
            start_offset = 0, page_length = 25, get_column_index = (\<lambda>n. - 1)\<rparr>,
         request_GET = Map.empty, preload_record_data = (\<lambda>x. Inr (PTuple []))\<rparr>
        0
        \<lparr>pretty_name = PNone, fields' = [PStr ''street_name''], callback = PNone\<rparr>
      = Inr (False, Default)
   \<and> get_resolver_method rt
        \<lparr>view_attrs = [''get_column_street_name_data'' \<mapsto>
                         PObj ''get_column_street_name_data'' OtherClass True [],
                       ''get_column_None_data'' \<mapsto>
                         PObj ''get_column_None_data'' OtherClass True []],
         datatable_options = \<lparr>columns = [PStr ''street_name''], ordering = [],
            start_offset = 0, page_length = 25, get_column_index = (\<lambda>n. - 1)\<rparr>,
         request_GET = Map.empty, preload_record_data = (\<lambda>x. Inr (PTuple []))\<rparr>
        0
        \<lparr>pretty_name = PNone, fields' = [PStr ''street_name''], callback = PNone\<rparr>
      = Inr (True, Custom (PObj ''get_column_None_data'' OtherClass True []))"
proof -
  have m: "re_sub_W_us (unicode_alnum rt) ''None'' = ''None''"
    by code_simp
  have z: "str_nat 0 = ''0''"
    by code_simp
  show ?thesis
    by (simp add: get_field_definition_def field_triple_def get_resolver_method_def
          force_text_None m z view_getattr_or_None_def Let_def del: re_sub_W_us.simps)
qed

section \<open>Properties of the row and response assemblers\<close>

lemma of_char_digit: "d < 10 \<Longrightarrow> of_char (char_of (48 + d :: nat)) = (48 + d :: nat)"
  by (simp add: take_bit_nat_eq_self)

lemma str_nat_nonempty: "str_nat n \<noteq> []"
  by (subst str_nat.simps) simp

lemma str_nat_small: "n < 10 \<Longrightarrow> str_nat n = [char_of (48 + n)]"
  by (subst str_nat.simps) simp

lemma str_nat_large:
  "\<not> n < 10 \<Longrightarrow> str_nat n = str_nat (n div 10) @ [char_of (48 + n mod 10)]"
  by (subst str_nat.simps) simp

lemma str_nat_digits: "c \<in> set (str_nat n) \<Longrightarrow> (of_char c :: nat) < 58"
proof (induction n rule: str_nat.induct)
  case (1 n)
  show ?case
  proof (cases "n < 10")
    case True
    with "1.prems" show ?thesis
      by (auto simp: str_nat_small of_char_digit)
  next
    case False
    have "n mod 10 < 10" by simp
    then have "(of_char (char_of (48 + n mod 10 :: nat)) :: nat) < 58"
      by (simp add: of_char_digit)
    with False "1.prems" "1.IH" show ?thesis
      by (auto simp: str_nat_large)
  qed
qed

lemma str_nat_not_DT_RowId: "str_nat n \<noteq> ''DT_RowId''"
proof
  assume "str_nat n = ''DT_RowId''"
  then have "CHR ''D'' \<in> set (str_nat n)" by simp
  then have "(of_char CHR ''D'' :: nat) < 58" by (rule str_nat_digits)
  then show False by simp
qed

lemma digit_char_inj:
  assumes "a < 10" and "b < 10" and "char_of (48 + a :: nat) = char_of (48 + b :: nat)"
  shows "a = b"
proof -
  have "(of_char (char_of (48 + a)) :: nat) = of_char (char_of (48 + b))"
    using assms(3) by simp
  then show ?thesis
    using assms(1,2) by (simp add: of_char_digit)
qed

lemma str_nat_inj: "str_nat m = str_nat n \<Longrightarrow> m = n"
proof (induction m arbitrary: n rule: str_nat.induct)
  case (1 m)
  show ?case
  proof (cases "m < 10")
    case m: True
    show ?thesis
    proof (cases "n < 10")
      case True
      with m "1.prems" show ?thesis
        by (auto simp: str_nat_small intro: digit_char_inj)
    next
      case False
      with m "1.prems" have "[char_of (48 + m)] = str_nat (n div 10) @ [char_of (48 + n mod 10)]"
        by (simp add: str_nat_small str_nat_large)
      then have "str_nat (n div 10) = []" by simp
      then show ?thesis by (simp add: str_nat_nonempty)
    qed
  next
    case m: False
    show ?thesis
    proof (cases "n < 10")
      case True
      with m "1.prems" have "str_nat (m div 10) @ [char_of (48 + m mod 10)] = [char_of (48 + n)]"
        by (simp add: str_nat_small str_nat_large)
      then have "str_nat (m div 10) = []" by simp
      then show ?thesis by (simp add: str_nat_nonempty)
    next
      case False
      with m "1.prems" have eq: "str_nat (m div 10) = str_nat (n div 10)"
        and d: "char_of (48 + m mod 10) = char_of (48 + n mod 10)"
        by (simp_all add: str_nat_large)
      from "1.IH" [OF m eq] have q: "m div 10 = n div 10" .
      have r: "m mod 10 = n mod 10"
        using d by (intro digit_char_inj) simp_all
      show ?thesis
        using q r by (metis div_mult_mod_eq)
    qed
  qed
qed


lemma record_loop_result:
  "record_loop rt view obj i names data = Inr row \<Longrightarrow>
     fst ` set row = fst ` set data \<union> str_nat ` {i..<i + length names}
     \<and> (distinct (map fst data) \<longrightarrow> distinct (map fst row))
     \<and> (\<forall>k. k \<notin> str_nat ` {i..<i + length names} \<longrightarrow> map_of row k = map_of data k)
     \<and> (\<forall>j<length names. \<exists>vals d.
           get_column_data rt view (i + j) (names ! j) obj = Inr vals
           \<and> first_item vals = Inr d
           \<and> map_of row (str_nat (i + j)) = Some (PStr (text_type rt d)))"
proof (induction names arbitrary: i data)
  case Nil
  then show ?case by simp
next
  case (Cons name names)
  from Cons.prems obtain vals d where
    g: "get_column_data rt view i name obj = Inr vals" and
    f: "first_item vals = Inr d" and
    r: "record_loop rt view obj (Suc i) names
          (AList.update (str_nat i) (PStr (text_type rt d)) data) = Inr row"
    by (auto split: sum.splits)
  define data' where "data' = AList.update (str_nat i) (PStr (text_type rt d)) data"
  note IH = Cons.IH [OF r, folded data'_def]
  have keys: "fst ` set row = fst ` set data' \<union> str_nat ` {Suc i..<Suc i + length names}"
    and dist: "distinct (map fst data') \<longrightarrow> distinct (map fst row)"
    and other: "\<forall>k. k \<notin> str_nat ` {Suc i..<Suc i + length names} \<longrightarrow>
                  map_of row k = map_of data' k"
    and cols: "\<forall>j<length names. \<exists>vals d.
           get_column_data rt view (Suc i + j) (names ! j) obj = Inr vals
           \<and> first_item vals = Inr d
           \<and> map_of row (str_nat (Suc i + j)) = Some (PStr (text_type rt d))"
    using IH by blast+
  have range: "{i..<i + length (name # names)} = insert i {Suc i..<Suc i + length names}"
    by auto
  have notin: "str_nat i \<notin> str_nat ` {Suc i..<Suc i + length names}"
    by (auto dest: str_nat_inj)
  have here: "map_of row (str_nat i) = Some (PStr (text_type rt d))"
    using other notin by (simp add: data'_def update_conv')
  have 1: "fst ` set row = fst ` set data \<union> str_nat ` {i..<i + length (name # names)}"
    unfolding keys range by (auto simp: data'_def dom_update)
  have 2: "distinct (map fst data) \<longrightarrow> distinct (map fst row)"
    using dist by (simp add: data'_def distinct_update)
  have 3: "\<forall>k. k \<notin> str_nat ` {i..<i + length (name # names)} \<longrightarrow> map_of row k = map_of data k"
    unfolding range using other by (auto simp: data'_def update_conv')
  have 4: "\<forall>j<length (name # names). \<exists>vals d.
           get_column_data rt view (i + j) ((name # names) ! j) obj = Inr vals
           \<and> first_item vals = Inr d
           \<and> map_of row (str_nat (i + j)) = Some (PStr (text_type rt d))"
  proof (intro allI impI)
    fix j assume j: "j < length (name # names)"
    show "\<exists>vals d. get_column_data rt view (i + j) ((name # names) ! j) obj = Inr vals
           \<and> first_item vals = Inr d
           \<and> map_of row (str_nat (i + j)) = Some (PStr (text_type rt d))"
    proof (cases j)
      case 0
      then show ?thesis using g f here by auto
    next
      case (Suc j')
      with j have "j' < length names" by simp
      with cols show ?thesis by (simp add: Suc)
    qed
  qed
  from 1 2 3 4 show ?case by blast
qed

lemma get_record_data_result:
  assumes "get_record_data rt view obj = Inr row"
  shows "fst ` set row =
           insert ''DT_RowId'' (str_nat ` {0..<length (columns (datatable_options view))})
     \<and> distinct (map fst row)
     \<and> (\<exists>pk. getattr obj ''pk'' = Inr pk \<and> map_of row ''DT_RowId'' = Some pk)
     \<and> (\<forall>i<length (columns (datatable_options view)). \<exists>vals d.
           get_column_data rt view i (columns (datatable_options view) ! i) obj = Inr vals
           \<and> first_item vals = Inr d
           \<and> map_of row (str_nat i) = Some (PStr (text_type rt d)))"
proof -
  from assms obtain pk where pk: "getattr obj ''pk'' = Inr pk"
    and loop: "record_loop rt view obj 0 (columns (datatable_options view))
                 [(''DT_RowId'', pk)] = Inr row"
    by (auto simp: get_record_data_def split: sum.splits)
  have "''DT_RowId'' \<notin> str_nat ` {0..<0 + length (columns (datatable_options view))}"
  proof
    assume "''DT_RowId'' \<in> str_nat ` {0..<0 + length (columns (datatable_options view))}"
    then obtain n where "str_nat n = ''DT_RowId''" by (auto simp del: One_nat_def)
    then show False by (rule str_nat_not_DT_RowId [THEN notE])
  qed
  with record_loop_result [OF loop] pk show ?thesis
    by auto
qed

lemma collect_rows_all2:
  "collect_rows f xs = Inr ys \<Longrightarrow> list_all2 (\<lambda>x y. f x = Inr y) xs ys"
  by (induction xs arbitrary: ys) (auto split: sum.splits)


lemma json_response_object_rows:
  assumes "get_json_response_object rt view object_list total' filtered_total = Inr resp"
  shows "\<exists>rows.
     resp = PDict
       [(''sEcho'', (case request_GET view ''sEcho'' of None \<Rightarrow> PNone | Some t \<Rightarrow> PStr t)),
        (''iTotalRecords'', total'),
        (''iTotalDisplayRecords'', filtered_total),
        (''aaData'', PList (map PDict rows))]
     \<and> list_all2
         (\<lambda>obj row.
            fst ` set row =
              insert ''DT_RowId'' (str_nat ` {0..<length (columns (datatable_options view))})
            \<and> distinct (map fst row)
            \<and> (\<exists>pk. getattr obj ''pk'' = Inr pk \<and> map_of row ''DT_RowId'' = Some pk)
            \<and> (\<forall>i<length (columns (datatable_options view)). \<exists>vals d.
                  get_column_data rt view i (columns (datatable_options view) ! i) obj = Inr vals
                  \<and> first_item vals = Inr d
                  \<and> map_of row (str_nat i) = Some (PStr (text_type rt d))))
         (paginate_object_list view object_list) rows"
proof -
  from assms obtain rows where
    rows: "collect_rows (get_record_data rt view) (paginate_object_list view object_list) = Inr rows"
    and resp: "resp = PDict
       [(''sEcho'', (case request_GET view ''sEcho'' of None \<Rightarrow> PNone | Some t \<Rightarrow> PStr t)),
        (''iTotalRecords'', total'),
        (''iTotalDisplayRecords'', filtered_total),
        (''aaData'', PList (map PDict rows))]"
    by (auto simp: get_json_response_object_def Let_def split: sum.splits)
  have "list_all2 (\<lambda>obj row. get_record_data rt view obj = Inr row)
          (paginate_object_list view object_list) rows"
    using rows by (rule collect_rows_all2)
  then have "list_all2
         (\<lambda>obj row.
            fst ` set row =
              insert ''DT_RowId'' (str_nat ` {0..<length (columns (datatable_options view))})
            \<and> distinct (map fst row)
            \<and> (\<exists>pk. getattr obj ''pk'' = Inr pk \<and> map_of row ''DT_RowId'' = Some pk)
            \<and> (\<forall>i<length (columns (datatable_options view)). \<exists>vals d.
                  get_column_data rt view i (columns (datatable_options view) ! i) obj = Inr vals
                  \<and> first_item vals = Inr d
                  \<and> map_of row (str_nat i) = Some (PStr (text_type rt d))))
         (paginate_object_list view object_list) rows"
    by (rule list_all2_mono) (rule get_record_data_result)
  with resp show ?thesis by blast
qed

lemma list_all2_length_ex:
  assumes "\<exists>rows. A rows \<and> list_all2 P xs rows"
  shows "\<exists>rows. A rows \<and> length rows = length xs"
proof -
  from assms obtain rows where "A rows" and "list_all2 P xs rows" by blast
  then have "A rows \<and> length rows = length xs"
    by (simp add: list_all2_lengthD)
  then show ?thesis ..
qed

text \<open>
  Claim C5. Whenever the payload of an AJAX request is built, it is a dictionary with
  exactly the keys \<^verbatim>\<open>sEcho\<close>, \<^verbatim>\<open>iTotalRecords\<close>, \<^verbatim>\<open>iTotalDisplayRecords\<close> and
  \<^verbatim>\<open>aaData\<close>. \<^verbatim>\<open>sEcho\<close> is the request's parameter as it came, or \<^verbatim>\<open>None\<close> without
  one; the two counts are the counters carried by the record collection, whatever the
  page; and \<^verbatim>\<open>aaData\<close> has one dictionary for each record of the page, whose keys are
  \<^verbatim>\<open>DT_RowId\<close>, holding the record's \<^verbatim>\<open>pk\<close>, and the decimal strings of the column
  indices, each holding the text of the display value of that column.
\<close>

theorem ajax_response_shape:
  assumes "get_ajax_response_data rt view object_list = Inr resp"
  shows "\<exists>rows.
     resp = PDict
       [(''sEcho'', (case request_GET view ''sEcho'' of None \<Rightarrow> PNone | Some t \<Rightarrow> PStr t)),
        (''iTotalRecords'', dtv_total_initial_record_count object_list),
        (''iTotalDisplayRecords'', dtv_unpaged_total object_list),
        (''aaData'', PList (map PDict rows))]
     \<and> list_all2
         (\<lambda>obj row.
            fst ` set row =
              insert ''DT_RowId'' (str_nat ` {0..<length (columns (datatable_options view))})
            \<and> distinct (map fst row)
            \<and> (\<exists>pk. getattr obj ''pk'' = Inr pk \<and> map_of row ''DT_RowId'' = Some pk)
            \<and> (\<forall>i<length (columns (datatable_options view)). \<exists>vals d.
                  get_column_data rt view i (columns (datatable_options view) ! i) obj = Inr vals
                  \<and> first_item vals = Inr d
                  \<and> map_of row (str_nat i) = Some (PStr (text_type rt d))))
         (paginate_object_list view (items object_list)) rows"
proof -
  from assms have "get_json_response_object rt view (items object_list)
      (dtv_total_initial_record_count object_list) (dtv_unpaged_total object_list) = Inr resp"
    by (simp add: get_ajax_response_data_def Let_def)
  then show ?thesis
    by (rule json_response_object_rows)
qed

theorem ajax_response_shape_witness:
  "get_ajax_response_data
     \<lparr>py_call = (\<lambda>f a k. Inr (PStr ''<b>old</b>'')), py_str = (\<lambda>v. ''object''),
       unicode_alnum = (\<lambda>c. False)\<rparr>
     \<lparr>view_attrs = [''get_column_1_data'' \<mapsto> PObj ''get_column_1_data'' OtherClass True []],
      datatable_options =
        \<lparr>columns = [PTuple [PStr ''Name'', PStr ''name''], PStr ''age''], ordering = [],
         start_offset = 1, page_length = 1, get_column_index = (\<lambda>n. - 1)\<rparr>,
      request_GET = [''sEcho'' \<mapsto> ''7''],
      preload_record_data = (\<lambda>x. Inr (PTuple []))\<rparr>
     \<lparr>items =
        [PObj ''row1'' ModelClass False
           [(''pk'', Inr (PInt 1)), (''name'', Inr (PStr ''Al'')), (''age'', Inr (PInt 41))],
         PObj ''row2'' ModelClass False
           [(''pk'', Inr (PInt 2)), (''name'', Inr (PStr ''Bo'')), (''age'', Inr (PInt 30))],
         PObj ''row3'' ModelClass False
           [(''pk'', Inr (PInt 3)), (''name'', Inr (PStr ''Cy'')), (''age'', Inr (PInt 25))]],
      dtv_total_initial_record_count = PInt 57, dtv_unpaged_total = PInt 3\<rparr>
   = Inr (PDict
       [(''sEcho'', PStr ''7''),
        (''iTotalRecords'', PInt 57),
        (''iTotalDisplayRecords'', PInt 3),
        (''aaData'', PList [PDict [(''DT_RowId'', PInt 2), (''0'', PStr ''Bo''),
                                   (''1'', PStr ''<b>old</b>'')]])])
   \<and> (\<exists>rows. PDict
             [(''sEcho'', PStr ''7''),
              (''iTotalRecords'', PInt 57),
              (''iTotalDisplayRecords'', PInt 3),
              (''aaData'', PList [PDict [(''DT_RowId'', PInt 2), (''0'', PStr ''Bo''),
                                         (''1'', PStr ''<b>old</b>'')]])]
          = PDict
             [(''sEcho'', PStr ''7''),
              (''iTotalRecords'', PInt 57),
              (''iTotalDisplayRecords'', PInt 3),
              (''aaData'', PList (map PDict rows))]
        \<and> length rows = 1)"
  (is "?call = Inr ?resp \<and> ?shape")
proof
  have m: "re_sub_W_us (\<lambda>c. False) ''None'' = ''None''"
    "re_sub_W_us (\<lambda>c. False) ''Name'' = ''Name''"
    by code_simp+
  have z: "str_nat 0 = ''0''" "str_nat (Suc 0) = ''1''"
    by code_simp+
  show ev: "?call = Inr ?resp"
    by (simp add: get_ajax_response_data_def get_json_response_object_def paginate_object_list_def py_slice_def
          get_record_data_def get_column_data_def get_field_definition_def field_triple_def
          get_resolver_method_def force_text_def text_type_def view_getattr_or_None_def
          get_preloaded_data_def get_column_data_default_def field_value_def chain_lookup_def
          first_item_def m z Let_def del: re_sub_W_us.simps)
  show ?shape
    using list_all2_length_ex [OF ajax_response_shape [OF ev]]
    by (simp add: paginate_object_list_def py_slice_def)
qed

end
